theory Spec2Isabelle
  imports Main "HOL-Library.Word"
begin

unbundle bit_operations_syntax

section \<open>Argument kinds (Engine/Script.h, enum definitions)\<close>

text \<open>
  \<^verbatim>\<open>ArgSpecEnum\<close> and \<^verbatim>\<open>ArgEnum\<close> are enums over \<^verbatim>\<open>Uint8\<close>; their values are built
  with \<^verbatim>\<open>static_cast\<close> from bit operations, so both are modelled as 8-bit words.
\<close>

type_synonym ArgSpecEnum = "8 word"
type_synonym ArgEnum = "8 word"

definition ArgSpecNone :: ArgSpecEnum where "ArgSpecNone = 0x0"
definition ArgSpecReg :: ArgSpecEnum where "ArgSpecReg = 0x1"
definition ArgSpecVar :: ArgSpecEnum where "ArgSpecVar = 0x3"
definition ArgSpecPtr :: ArgSpecEnum where "ArgSpecPtr = 0x4"
definition ArgSpecPtrE :: ArgSpecEnum where "ArgSpecPtrE = 0xC"
definition ArgSpecSize :: ArgSpecEnum where "ArgSpecSize = 0x10"

definition ArgInvalid :: ArgEnum where "ArgInvalid = ArgSpecSize * 0"
definition ArgNull :: ArgEnum where "ArgNull = ArgSpecSize * 1"
definition ArgInt :: ArgEnum where "ArgInt = ArgSpecSize * 2"
definition ArgLabel :: ArgEnum where "ArgLabel = ArgSpecSize * 3"
definition ArgMax :: ArgEnum where "ArgMax = ArgSpecSize * 4"

definition ArgNext :: "ArgEnum \<Rightarrow> ArgEnum" where
  "ArgNext arg = arg + ArgSpecSize"

definition ArgBase :: "ArgEnum \<Rightarrow> ArgEnum" where
  "ArgBase arg = arg AND NOT (ArgSpecSize - 1)"

definition ArgSpecAdd :: "ArgEnum \<Rightarrow> ArgSpecEnum \<Rightarrow> ArgEnum" where
  "ArgSpecAdd arg spec = (if ArgBase arg \<noteq> ArgInvalid then arg OR spec else arg)"

definition ArgSpecRemove :: "ArgEnum \<Rightarrow> ArgSpecEnum \<Rightarrow> ArgEnum" where
  "ArgSpecRemove arg spec = (if ArgBase arg \<noteq> ArgInvalid then arg AND NOT spec else arg)"

definition ArgIsReg :: "ArgEnum \<Rightarrow> bool" where
  "ArgIsReg arg = (arg AND ArgSpecReg = ArgSpecReg)"

definition ArgIsVar :: "ArgEnum \<Rightarrow> bool" where
  "ArgIsVar arg = (arg AND ArgSpecVar = ArgSpecVar)"

definition ArgIsPtr :: "ArgEnum \<Rightarrow> bool" where
  "ArgIsPtr arg = (arg AND ArgSpecPtr = ArgSpecPtr)"

definition ArgIsPtrE :: "ArgEnum \<Rightarrow> bool" where
  "ArgIsPtrE arg = (arg AND ArgSpecPtrE = ArgSpecPtrE)"

text \<open>
  \<^verbatim>\<open>ArgCompatible\<close>: the chain of conditional expressions of the source, in its order.
  \<^verbatim>\<open>overloadSize\<close> is a \<^verbatim>\<open>size_t\<close>; it is only compared with 8 and subtracted when
  it is at most 8, so no wrap-around can occur and it is a natural number here. The
  result lies between 55 and 255 or is 0, so the \<^verbatim>\<open>int\<close> result is exact.
\<close>

definition ArgCompatible :: "ArgEnum \<Rightarrow> ArgEnum \<Rightarrow> nat \<Rightarrow> int" where
  "ArgCompatible argType varType overloadSize =
    (if argType = ArgInvalid then 0
     else if ArgIsVar argType \<and> argType \<noteq> varType then 0
     else if ArgBase argType \<noteq> ArgBase varType then 0
     else if ArgIsReg argType \<noteq> ArgIsReg varType then 0
     else if ArgIsPtr argType \<noteq> ArgIsPtr varType then 0
     else if ArgIsPtrE argType \<and> ArgIsPtr varType then 0
     else 255 - (if ArgIsPtrE argType \<noteq> ArgIsPtrE varType then 128 else 0)
              - (if ArgIsVar argType \<noteq> ArgIsVar varType then 64 else 0)
              - (if overloadSize > 8 then 8 else int overloadSize))"

text \<open>
  The case list of the specification (section 3, "Compatibility score"), written from
  its words, to be compared with \<^const>\<open>ArgCompatible\<close>.
\<close>

definition compat_spec :: "ArgEnum \<Rightarrow> ArgEnum \<Rightarrow> nat \<Rightarrow> int" where
  "compat_spec A V n =
    (if ArgIsVar A \<and> A \<noteq> V then 0
     else if ArgBase A \<noteq> ArgBase V then 0
     else if ArgIsReg A \<noteq> ArgIsReg V then 0
     else if ArgIsPtr A \<noteq> ArgIsPtr V then 0
     else if ArgIsPtrE A \<and> ArgIsPtr V \<and> \<not> ArgIsPtrE V then 0
     else 255 - (if ArgIsPtrE A \<noteq> ArgIsPtrE V then 128 else 0)
              - (if ArgIsVar A \<noteq> ArgIsVar V then 64 else 0)
              - int (min n 8))"


section \<open>Script containers (Engine/Script.h, containers definitions)\<close>

text \<open>
  \<^verbatim>\<open>ScriptContainerBase\<close> owns the bytecode vector \<^verbatim>\<open>_proc\<close>. Its conversion to
  \<^verbatim>\<open>bool\<close> is \<^verbatim>\<open>!_proc.empty()\<close>, and \<^verbatim>\<open>data()\<close> is the null pointer
  (\<open>None\<close>) for a container that converts to false.
\<close>

record ScriptContainerBase =
  proc :: "8 word list"

definition ScriptContainerBase_bool :: "ScriptContainerBase \<Rightarrow> bool" where
  "ScriptContainerBase_bool c = (\<not> (proc c = []))"

definition ScriptContainerBase_data :: "ScriptContainerBase \<Rightarrow> 8 word list option" where
  "ScriptContainerBase_data c = (if ScriptContainerBase_bool c then Some (proc c) else None)"

text \<open>
  \<^verbatim>\<open>ScriptContainerEventsBase\<close> holds its own script \<^verbatim>\<open>_current\<close> and the pointer
  \<^verbatim>\<open>_events\<close> into an array of event scripts: \<open>None\<close> is the null pointer,
  \<open>Some es\<close> the array from the element pointed to up to its end. Its conversion
  to \<^verbatim>\<open>bool\<close> is the constant \<^verbatim>\<open>true\<close>.
\<close>

record ScriptContainerEventsBase =
  current :: ScriptContainerBase
  events :: "ScriptContainerBase list option"

definition ScriptContainerEventsBase_bool :: "ScriptContainerEventsBase \<Rightarrow> bool" where
  "ScriptContainerEventsBase_bool c = True"

definition ScriptContainerEventsBase_data :: "ScriptContainerEventsBase \<Rightarrow> 8 word list option" where
  "ScriptContainerEventsBase_data c = ScriptContainerBase_data (current c)"

definition dataEvents :: "ScriptContainerEventsBase \<Rightarrow> ScriptContainerBase list option" where
  "dataEvents c = events c"

section \<open>Symbols in scripts (Engine/Script.h, objects ranges)\<close>

text \<open>
  \<^verbatim>\<open>ScriptRef\<close> is \<^verbatim>\<open>ScriptRange<char>\<close>: the two pointers \<^verbatim>\<open>_begin\<close> and
  \<^verbatim>\<open>_end\<close> into character memory. Pointers are addresses (natural numbers, the null
  pointer is 0) and the memory they point into is a function from addresses to bytes.
  The constructors of the source are only ever given \<^verbatim>\<open>_begin \<le> _end\<close>
  (\<^verbatim>\<open>p, p + strlen(p)\<close>; \<^verbatim>\<open>s.data(), s.data() + s.size()\<close>); for such ranges
  \<^verbatim>\<open>size_t(_end - _begin)\<close> is the difference of the addresses, and the sizes and indices,
  which are \<^verbatim>\<open>size_t\<close> in the source, are natural numbers here: the source only
  compares them and subtracts a smaller from a larger one.
\<close>

record ScriptRef =
  ref_begin :: nat
  ref_end :: nat

definition ScriptRef_wf :: "ScriptRef \<Rightarrow> bool" where
  "ScriptRef_wf r = (ref_begin r \<le> ref_end r)"

definition ScriptRef_default :: ScriptRef where
  "ScriptRef_default = \<lparr>ref_begin = 0, ref_end = 0\<rparr>"

definition ScriptRef_size :: "ScriptRef \<Rightarrow> nat" where
  "ScriptRef_size r = ref_end r - ref_begin r"

definition substr :: "ScriptRef \<Rightarrow> nat \<Rightarrow> nat \<Rightarrow> ScriptRef" where
  "substr r p s =
    (let totalSize = ref_end r - ref_begin r in
     if p \<ge> totalSize then ScriptRef_default
     else
       let b = ref_begin r + p in
       if s > totalSize - p then \<lparr>ref_begin = b, ref_end = ref_end r\<rparr>
       else \<lparr>ref_begin = b, ref_end = b + s\<rparr>)"

text \<open>
  \<^verbatim>\<open>memcmp\<close> of the C library compares the two blocks byte by byte as unsigned
  characters and returns a value whose sign is that of the first difference. Only the
  sign is fixed and only the sign is used by the operators below, so the model returns
  \<open>-1\<close>, \<open>0\<close> or \<open>1\<close>. The order \<open><\<close> of \<^typ>\<open>8 word\<close> is the unsigned one.
\<close>

fun memcmp :: "(nat \<Rightarrow> 8 word) \<Rightarrow> nat \<Rightarrow> nat \<Rightarrow> nat \<Rightarrow> int" where
  "memcmp mem p q 0 = 0"
| "memcmp mem p q (Suc n) =
    (if mem p = mem q then memcmp mem (Suc p) (Suc q) n
     else if mem p < mem q then - 1 else 1)"

definition compare :: "(nat \<Rightarrow> 8 word) \<Rightarrow> ScriptRef \<Rightarrow> ScriptRef \<Rightarrow> int" where
  "compare mem a b =
    (let size_a = ScriptRef_size a; size_b = ScriptRef_size b in
     if size_a = size_b then memcmp mem (ref_begin a) (ref_begin b) size_a
     else if size_a < size_b then - 1
     else 1)"

definition ScriptRef_eq :: "(nat \<Rightarrow> 8 word) \<Rightarrow> ScriptRef \<Rightarrow> ScriptRef \<Rightarrow> bool" where
  "ScriptRef_eq mem a s = (compare mem a s = 0)"

definition ScriptRef_noteq :: "(nat \<Rightarrow> 8 word) \<Rightarrow> ScriptRef \<Rightarrow> ScriptRef \<Rightarrow> bool" where
  "ScriptRef_noteq mem a s = (compare mem a s \<noteq> 0)"

definition ScriptRef_less :: "(nat \<Rightarrow> 8 word) \<Rightarrow> ScriptRef \<Rightarrow> ScriptRef \<Rightarrow> bool" where
  "ScriptRef_less mem a s = (compare mem a s < 0)"

text \<open>The bytes a range denotes: the \<open>n\<close> bytes of memory from address \<open>p\<close> on.\<close>

fun read_bytes :: "(nat \<Rightarrow> 8 word) \<Rightarrow> nat \<Rightarrow> nat \<Rightarrow> 8 word list" where
  "read_bytes mem p 0 = []"
| "read_bytes mem p (Suc n) = mem p # read_bytes mem (Suc p) n"

definition ScriptRef_bytes :: "(nat \<Rightarrow> 8 word) \<Rightarrow> ScriptRef \<Rightarrow> 8 word list" where
  "ScriptRef_bytes mem r = read_bytes mem (ref_begin r) (ScriptRef_size r)"

section \<open>Host types and their run-time kinds (Engine/Script.h, helper::TypeInfoImpl, getArgType)\<close>

text \<open>
  The templates of the source take C++ types as arguments. A type is a term: the three
  types \<^verbatim>\<open>registeTypeImpl\<close> singles out, any other object type (a class, an enum, a
  \<^verbatim>\<open>ScriptTag\<close>), given by an identity and its \<^verbatim>\<open>sizeof\<close>, and the three type
  constructors the source inspects: \<^verbatim>\<open>const\<close>, pointer and (lvalue) reference.
  In a well-formed type a reference is outermost: there is no \<^verbatim>\<open>const\<close> on a
  reference, no pointer or reference to a reference, and no \<^verbatim>\<open>const\<close> twice.
\<close>

datatype cpptype =
    TInt
  | TNullptr
  | TProgPos
  | TClass nat nat
  | TConst cpptype
  | TPtr cpptype
  | TRef cpptype

fun no_ref :: "cpptype \<Rightarrow> bool" where
  "no_ref (TRef t) = False"
| "no_ref (TConst (TConst t)) = False"
| "no_ref (TConst t) = no_ref t"
| "no_ref (TPtr t) = no_ref t"
| "no_ref t = True"

fun cpp_wf :: "cpptype \<Rightarrow> bool" where
  "cpp_wf (TRef t) = no_ref t"
| "cpp_wf t = no_ref t"

text \<open>
  The type traits of \<^verbatim>\<open><type_traits>\<close> the source uses, as the C++ standard defines
  them (there are no array, function or \<^verbatim>\<open>volatile\<close> types here, so
  \<^verbatim>\<open>std::decay\<close> removes the reference and then the top-level \<^verbatim>\<open>const\<close>).
  \<^verbatim>\<open>std::is_const\<close> looks at the top level only: it is false for every reference
  type, also for a reference to a \<^verbatim>\<open>const\<close> type.
\<close>

fun is_reference :: "cpptype \<Rightarrow> bool" where
  "is_reference (TRef t) = True"
| "is_reference t = False"

fun is_const :: "cpptype \<Rightarrow> bool" where
  "is_const (TConst t) = True"
| "is_const t = False"

fun remove_reference :: "cpptype \<Rightarrow> cpptype" where
  "remove_reference (TRef t) = t"
| "remove_reference t = t"

fun remove_cv :: "cpptype \<Rightarrow> cpptype" where
  "remove_cv (TConst t) = t"
| "remove_cv t = t"

definition decay :: "cpptype \<Rightarrow> cpptype" where
  "decay T = remove_cv (remove_reference T)"

fun is_pointer :: "cpptype \<Rightarrow> bool" where
  "is_pointer (TPtr t) = True"
| "is_pointer (TConst (TPtr t)) = True"
| "is_pointer t = False"

fun remove_pointer :: "cpptype \<Rightarrow> cpptype" where
  "remove_pointer (TPtr t) = t"
| "remove_pointer (TConst (TPtr t)) = t"
| "remove_pointer t = t"

text \<open>
  \<^verbatim>\<open>sizeof\<close>, for a target whose pointers and \<^verbatim>\<open>size_t\<close> have 8 bytes and whose
  \<^verbatim>\<open>int\<close> has 4. \<^verbatim>\<open>sizeof\<close> of a reference is that of the referenced type.
  No theorem below depends on the two numbers; the worked examples do.
\<close>

definition sizeof_ptr :: nat where
  "sizeof_ptr = 8"

definition sizeof_int :: nat where
  "sizeof_int = 4"

fun sizeof :: "cpptype \<Rightarrow> nat" where
  "sizeof TInt = sizeof_int"
| "sizeof TNullptr = sizeof_ptr"
| "sizeof TProgPos = sizeof_ptr"
| "sizeof (TClass i n) = n"
| "sizeof (TConst t) = sizeof t"
| "sizeof (TPtr t) = sizeof_ptr"
| "sizeof (TRef t) = sizeof t"

text \<open>\<^verbatim>\<open>helper::TypeInfoImpl<T>\<close>, member by member.\<close>

definition t1 :: "cpptype \<Rightarrow> cpptype" where
  "t1 T = decay T"

definition t2 :: "cpptype \<Rightarrow> cpptype" where
  "t2 T = remove_pointer (t1 T)"

definition t3 :: "cpptype \<Rightarrow> cpptype" where
  "t3 T = decay (t2 T)"

definition isRef :: "cpptype \<Rightarrow> bool" where
  "isRef T = is_reference T"

definition isOutput :: "cpptype \<Rightarrow> bool" where
  "isOutput T = (isRef T \<and> \<not> is_const T)"

definition isPtr :: "cpptype \<Rightarrow> bool" where
  "isPtr T = is_pointer (t1 T)"

definition isEditable :: "cpptype \<Rightarrow> bool" where
  "isEditable T = (isPtr T \<and> \<not> is_const (t2 T))"

text \<open>
  \<^verbatim>\<open>registeTypeImpl<T>\<close> answers the fixed kinds for \<^verbatim>\<open>int\<close>, \<^verbatim>\<open>nullptr_t\<close>
  and \<^verbatim>\<open>ProgPos\<close>. For any other type its function-local static is initialised once,
  by the next call of \<^verbatim>\<open>registeTypeImplNextValue\<close>, whose own static starts at
  \<^verbatim>\<open>ArgMax\<close> and advances by \<^verbatim>\<open>ArgNext\<close> at each call. The order in which the
  types of a program are first asked for is the parameter \<open>ord\<close>: \<open>ord T\<close> calls came
  before the one that initialises the static of \<open>T\<close>.
\<close>

definition registeTypeImplNextValue :: "nat \<Rightarrow> ArgEnum" where
  "registeTypeImplNextValue k = (ArgNext ^^ k) ArgMax"

definition registeTypeImpl :: "(cpptype \<Rightarrow> nat) \<Rightarrow> cpptype \<Rightarrow> ArgEnum" where
  "registeTypeImpl ord T =
    (if T = TInt then ArgInt
     else if T = TNullptr then ArgNull
     else if T = TProgPos then ArgLabel
     else registeTypeImplNextValue (ord T))"

definition getArgType :: "(cpptype \<Rightarrow> nat) \<Rightarrow> cpptype \<Rightarrow> ArgEnum" where
  "getArgType ord T =
    (let spec0 = ArgSpecNone;
         spec1 = (if isRef T then spec0 OR ArgSpecVar else spec0);
         spec2 = (if isPtr T then spec1 OR ArgSpecPtr else spec1);
         spec3 = (if isEditable T then spec2 OR ArgSpecPtrE else spec2)
     in ArgSpecAdd (registeTypeImpl ord (t3 T)) spec3)"

text \<open>
  The two readings of a host type that the specification uses for the flags: a
  reference to a type that is not \<^verbatim>\<open>const\<close>, and a pointer (after \<^verbatim>\<open>std::decay\<close>,
  as a parameter of that type is passed) to a type that is not \<^verbatim>\<open>const\<close>.
\<close>

fun nonconst_reference :: "cpptype \<Rightarrow> bool" where
  "nonconst_reference (TRef t) = (\<not> is_const t)"
| "nonconst_reference t = False"

definition pointer_to_nonconst :: "cpptype \<Rightarrow> bool" where
  "pointer_to_nonconst T = (case decay T of TPtr t \<Rightarrow> \<not> is_const t | _ \<Rightarrow> False)"

section \<open>Values used by scripts (Engine/Script.h, ScriptValueData)\<close>

text \<open>
  \<^verbatim>\<open>ScriptValueData\<close>: raw memory of the size of a pointer, the kind of the stored
  value and its size. A value of a host type is the list of the bytes of its object
  representation, \<^verbatim>\<open>sizeof(T)\<close> of them. The constructor from a value copies these
  bytes to the front of \<^verbatim>\<open>data\<close>, whose other bytes stay as they were (\<open>raw\<close>, the
  indeterminate content of the fresh object); its \<^verbatim>\<open>static_assert\<close> admits only types
  with \<^verbatim>\<open>sizeof(T) <= sizeof(data)\<close>.
\<close>

record ScriptValueData =
  vd_data :: "8 word list"
  vd_type :: ArgEnum
  vd_size :: "8 word"

definition ScriptValueData_default :: "8 word list \<Rightarrow> ScriptValueData" where
  "ScriptValueData_default raw = \<lparr>vd_data = raw, vd_type = ArgInvalid, vd_size = 0\<rparr>"

definition ScriptValueData_from ::
    "(cpptype \<Rightarrow> nat) \<Rightarrow> cpptype \<Rightarrow> 8 word list \<Rightarrow> 8 word list \<Rightarrow> ScriptValueData" where
  "ScriptValueData_from ord T raw t =
    \<lparr>vd_data = take (sizeof T) t @ drop (sizeof T) raw,
     vd_type = getArgType ord T,
     vd_size = word_of_nat (sizeof T)\<rparr>"

datatype script_error = InvalidCast | ReadPastData

definition isValueType :: "(cpptype \<Rightarrow> nat) \<Rightarrow> cpptype \<Rightarrow> ScriptValueData \<Rightarrow> bool" where
  "isValueType ord T v = (vd_type v = getArgType ord T)"

text \<open>
  \<^verbatim>\<open>getValue<T>\<close> throws \<^verbatim>\<open>Exception("Invalid cast of value")\<close> when the kinds
  differ and otherwise reads a \<^verbatim>\<open>T\<close> at the address of \<^verbatim>\<open>data\<close>. Reading more
  bytes than \<^verbatim>\<open>data\<close> has is undefined in the source; the model marks it.
\<close>

definition getValue ::
    "(cpptype \<Rightarrow> nat) \<Rightarrow> cpptype \<Rightarrow> ScriptValueData \<Rightarrow> script_error + 8 word list" where
  "getValue ord T v =
    (if \<not> isValueType ord T v then Inl InvalidCast
     else if sizeof T \<le> length (vd_data v) then Inr (take (sizeof T) (vd_data v))
     else Inl ReadPastData)"

section \<open>The script worker (Engine/Script.h, worker definition)\<close>

text \<open>
  The register file \<^verbatim>\<open>reg\<close> of a worker is raw memory of \<^verbatim>\<open>ScriptMaxReg\<close> bytes:
  a list of bytes. \<^verbatim>\<open>ref<T>(offset)\<close> reinterprets the bytes from \<^verbatim>\<open>offset\<close> on
  as a \<open>T\<close>; assigning to it writes the \<^verbatim>\<open>sizeof(T)\<close> bytes of the value, reading it
  reads as many. The source does not check the offset; an access that leaves the
  register file is undefined there and \<open>None\<close> here.
\<close>

type_synonym regfile = "8 word list"

definition ScriptMaxOut :: nat where
  "ScriptMaxOut = 4"

definition ScriptMaxArg :: nat where
  "ScriptMaxArg = 16"

definition ScriptMaxReg :: nat where
  "ScriptMaxReg = 64 * sizeof_ptr"

definition ref_write :: "regfile \<Rightarrow> nat \<Rightarrow> 8 word list \<Rightarrow> regfile option" where
  "ref_write reg off v =
    (if off + length v \<le> length reg
     then Some (take off reg @ v @ drop (off + length v) reg)
     else None)"

definition reg_slice :: "regfile \<Rightarrow> nat \<Rightarrow> nat \<Rightarrow> 8 word list" where
  "reg_slice reg off n = take n (drop off reg)"

definition ref_read :: "regfile \<Rightarrow> nat \<Rightarrow> nat \<Rightarrow> 8 word list option" where
  "ref_read reg off n = (if off + n \<le> length reg then Some (reg_slice reg off n) else None)"

text \<open>
  \<^verbatim>\<open>helper::PosTag<RegSet>\<close>, \<^verbatim>\<open>PosTag<RegNone>\<close> and \<^verbatim>\<open>PosTag<RegGet>\<close> select
  the overload of \<^verbatim>\<open>forRegImplLoop\<close>; the three filters compute the tag from the
  type of a register.
\<close>

datatype PosTag = RegSet | RegNone | RegGet

definition SetAllRegs :: "cpptype \<Rightarrow> PosTag" where
  "SetAllRegs T = RegSet"

definition GetWritableRegs :: "cpptype \<Rightarrow> PosTag" where
  "GetWritableRegs T = (if isOutput T then RegGet else RegNone)"

definition SetReadonlyRegs :: "cpptype \<Rightarrow> PosTag" where
  "SetReadonlyRegs T = (if \<not> isOutput T then RegSet else RegNone)"

text \<open>
  \<^verbatim>\<open>offset<Args...>(i)\<close>, by recursion over the type pack as in the source. The
  source has no instance for the empty pack and never asks for one.
\<close>

fun offset :: "cpptype list \<Rightarrow> nat \<Rightarrow> nat" where
  "offset [] i = 0"
| "offset [First] i = (if i > 0 then sizeof First else 0)"
| "offset (First # Second # Rest) i =
    (if i > 0 then sizeof First else 0) + (if i > 1 then offset (Second # Rest) (i - 1) else 0)"

definition offsetOutput :: "cpptype list \<Rightarrow> nat" where
  "offsetOutput Args = offset Args (length Args)"

text \<open>
  \<^verbatim>\<open>forRegImplLoop<BaseOffset, I, Args...>\<close> on the register file and the tuple
  \<open>arg\<close> of values (each the bytes of its object representation): \<^verbatim>\<open>RegSet\<close> writes
  element \<open>I\<close> of the tuple to the register at \<^verbatim>\<open>BaseOffset + offset<Args...>(I)\<close>,
  \<^verbatim>\<open>RegGet\<close> reads the register into element \<open>I\<close>, \<^verbatim>\<open>RegNone\<close> does nothing.
  \<^verbatim>\<open>CurrentType\<close> is the decayed type of element \<open>I\<close>. The tuple has one element
  for each type of the pack, by its type.
\<close>

fun forRegImplLoop ::
    "PosTag \<Rightarrow> nat \<Rightarrow> nat \<Rightarrow> cpptype list \<Rightarrow> regfile \<times> 8 word list list
      \<Rightarrow> (regfile \<times> 8 word list list) option" where
  "forRegImplLoop RegSet BaseOffset I Args (reg, arg) =
    (case ref_write reg (BaseOffset + offset Args I) (arg ! I) of
       None \<Rightarrow> None
     | Some reg' \<Rightarrow> Some (reg', arg))"
| "forRegImplLoop RegNone BaseOffset I Args (reg, arg) = Some (reg, arg)"
| "forRegImplLoop RegGet BaseOffset I Args (reg, arg) =
    (case ref_read reg (BaseOffset + offset Args I) (sizeof (decay (Args ! I))) of
       None \<Rightarrow> None
     | Some v \<Rightarrow> Some (reg, arg[I := v]))"

text \<open>
  \<^verbatim>\<open>forRegImpl\<close> expands the index list in a braced initialiser, evaluated from left
  to right; \<^verbatim>\<open>forReg\<close> calls it with the indices \<open>0, \<dots>, sizeof...(Args) - 1\<close>.
  The helpers of \<^verbatim>\<open>HelperMeta.h\<close> are not part of the source at hand and are read as
  their names and uses say: \<^verbatim>\<open>helper::Decay\<close> is \<^verbatim>\<open>std::decay\<close>,
  \<^verbatim>\<open>helper::MakeListTag<N>\<close> is the list of the indices below \<open>N\<close> in increasing
  order, and \<^verbatim>\<open>helper::DummySeq\<close> is an array that is only there to be initialised.
\<close>

fun forRegImpl ::
    "nat \<Rightarrow> (cpptype \<Rightarrow> PosTag) \<Rightarrow> cpptype list \<Rightarrow> nat list \<Rightarrow> regfile \<times> 8 word list list
      \<Rightarrow> (regfile \<times> 8 word list list) option" where
  "forRegImpl BaseOffset Filter Args [] st = Some st"
| "forRegImpl BaseOffset Filter Args (I # Is) st =
    (case forRegImplLoop (Filter (Args ! I)) BaseOffset I Args st of
       None \<Rightarrow> None
     | Some st' \<Rightarrow> forRegImpl BaseOffset Filter Args Is st')"

definition forReg ::
    "nat \<Rightarrow> (cpptype \<Rightarrow> PosTag) \<Rightarrow> cpptype list \<Rightarrow> regfile \<times> 8 word list list
      \<Rightarrow> (regfile \<times> 8 word list list) option" where
  "forReg BaseOffset Filter Args st = forRegImpl BaseOffset Filter Args [0 ..< length Args] st"

text \<open>
  \<^verbatim>\<open>updateBase<Output>(args...)\<close>: \<^verbatim>\<open>memset\<close> of the whole register file to 0, then
  every argument is written, the first at \<^verbatim>\<open>offsetOutput\<close> of the output types.
\<close>

definition updateBase :: "cpptype list \<Rightarrow> cpptype list \<Rightarrow> 8 word list list \<Rightarrow> regfile option" where
  "updateBase OutputArgs Args args =
    (case forReg (offsetOutput OutputArgs) SetAllRegs Args (replicate ScriptMaxReg 0, args) of
       None \<Rightarrow> None
     | Some (reg, args') \<Rightarrow> Some reg)"

text \<open>
  \<^verbatim>\<open>set\<close>, \<^verbatim>\<open>get\<close> and \<^verbatim>\<open>reset\<close> of \<^verbatim>\<open>ScriptWorkerBase\<close>, named with the
  prefix \<open>worker\<close> here. All three run over the types of the output tuple from offset 0.
\<close>

definition worker_set :: "cpptype list \<Rightarrow> 8 word list list \<Rightarrow> regfile \<Rightarrow> regfile option" where
  "worker_set OutputArgs arg reg =
    (case forReg 0 SetAllRegs OutputArgs (reg, arg) of
       None \<Rightarrow> None
     | Some (reg', arg') \<Rightarrow> Some reg')"

definition worker_get :: "cpptype list \<Rightarrow> regfile \<Rightarrow> 8 word list list \<Rightarrow> 8 word list list option" where
  "worker_get OutputArgs reg arg =
    (case forReg 0 GetWritableRegs OutputArgs (reg, arg) of
       None \<Rightarrow> None
     | Some (reg', arg') \<Rightarrow> Some arg')"

definition worker_reset :: "cpptype list \<Rightarrow> 8 word list list \<Rightarrow> regfile \<Rightarrow> regfile option" where
  "worker_reset OutputArgs arg reg =
    (case forReg 0 SetReadonlyRegs OutputArgs (reg, arg) of
       None \<Rightarrow> None
     | Some (reg', arg') \<Rightarrow> Some reg')"

text \<open>
  \<^verbatim>\<open>ScriptWorkerBlit\<close>: a worker with the pointer \<^verbatim>\<open>_proc\<close> to the current script;
  its output type is \<^verbatim>\<open>ScriptOutputArgs<int&, int>\<close>. \<^verbatim>\<open>update\<close> takes the code and
  the arguments of a container that converts to true and clears the worker otherwise.
\<close>

record ScriptWorkerBlit =
  blit_reg :: regfile
  blit_proc :: "8 word list option"

definition ScriptWorkerBlit_Output :: "cpptype list" where
  "ScriptWorkerBlit_Output = [TRef TInt, TInt]"

definition clear :: "ScriptWorkerBlit \<Rightarrow> ScriptWorkerBlit" where
  "clear w = w\<lparr>blit_proc := None\<rparr>"

definition update ::
    "cpptype list \<Rightarrow> ScriptContainerBase \<Rightarrow> 8 word list list \<Rightarrow> ScriptWorkerBlit
      \<Rightarrow> ScriptWorkerBlit option" where
  "update Args c args w =
    (if ScriptContainerBase_bool c then
       (case updateBase ScriptWorkerBlit_Output Args args of
          None \<Rightarrow> None
        | Some reg \<Rightarrow> Some \<lparr>blit_reg = reg, blit_proc = ScriptContainerBase_data c\<rparr>)
     else Some (clear w))"

text \<open>
  \<^verbatim>\<open>executeBase\<close> is declared here and defined elsewhere: it runs the bytecode it is
  given (the null pointer for an empty container) on the register file. It is the
  parameter \<open>executeBase\<close> of the two \<^verbatim>\<open>execute\<close> functions: from the code pointer
  and the register file to the register file it leaves, or \<open>None\<close> when it does not
  return.
\<close>

type_synonym executor = "8 word list option \<Rightarrow> regfile \<Rightarrow> regfile option"

text \<open>\<^verbatim>\<open>ScriptWorker::execute\<close> for a plain container: the outcome is the register file
  and the caller's output argument.\<close>

definition execute ::
    "executor \<Rightarrow> cpptype list \<Rightarrow> ScriptContainerBase \<Rightarrow> 8 word list list \<Rightarrow> regfile
      \<Rightarrow> (regfile \<times> 8 word list list) option" where
  "execute executeBase OutputArgs c arg reg =
    (case worker_set OutputArgs arg reg of
       None \<Rightarrow> None
     | Some reg1 \<Rightarrow>
        (case executeBase (ScriptContainerBase_data c) reg1 of
           None \<Rightarrow> None
         | Some reg2 \<Rightarrow>
            (case worker_get OutputArgs reg2 arg of
               None \<Rightarrow> None
             | Some arg' \<Rightarrow> Some (reg2, arg'))))"

text \<open>
  The loop \<^verbatim>\<open>while (*ptr) { reset(arg); executeBase(ptr->data()); ++ptr; }\<close> of the
  events variant. The pointer is the rest of the array of event scripts; the loop
  returns the pointer it stops at, which points to a container that converts to false.
  Reading past the end of the array is undefined in the source and \<open>None\<close> here.
\<close>

fun run_events ::
    "executor \<Rightarrow> cpptype list \<Rightarrow> 8 word list list \<Rightarrow> ScriptContainerBase list \<Rightarrow> regfile
      \<Rightarrow> (ScriptContainerBase list \<times> regfile) option" where
  "run_events executeBase OutputArgs arg [] reg = None"
| "run_events executeBase OutputArgs arg (e # ptr) reg =
    (if ScriptContainerBase_bool e then
       (case worker_reset OutputArgs arg reg of
          None \<Rightarrow> None
        | Some reg1 \<Rightarrow>
           (case executeBase (ScriptContainerBase_data e) reg1 of
              None \<Rightarrow> None
            | Some reg2 \<Rightarrow> run_events executeBase OutputArgs arg ptr reg2))
     else Some (e # ptr, reg))"

text \<open>\<^verbatim>\<open>ScriptWorker::execute\<close> for a container with events.\<close>

definition execute_events ::
    "executor \<Rightarrow> cpptype list \<Rightarrow> ScriptContainerEventsBase \<Rightarrow> 8 word list list \<Rightarrow> regfile
      \<Rightarrow> (regfile \<times> 8 word list list) option" where
  "execute_events executeBase OutputArgs c arg reg =
    (case worker_set OutputArgs arg reg of
       None \<Rightarrow> None
     | Some reg0 \<Rightarrow>
        (case (case dataEvents c of
                 None \<Rightarrow> Some (None, reg0)
               | Some ptr \<Rightarrow>
                  (case run_events executeBase OutputArgs arg ptr reg0 of
                     None \<Rightarrow> None
                   | Some (ptr', reg') \<Rightarrow> Some (Some (tl ptr'), reg'))) of
           None \<Rightarrow> None
         | Some (ptr1, reg1) \<Rightarrow>
            (case worker_reset OutputArgs arg reg1 of
               None \<Rightarrow> None
             | Some reg2 \<Rightarrow>
                (case executeBase (ScriptContainerEventsBase_data c) reg2 of
                   None \<Rightarrow> None
                 | Some reg3 \<Rightarrow>
                    (case (case ptr1 of
                             None \<Rightarrow> Some reg3
                           | Some ptr \<Rightarrow>
                              (case run_events executeBase OutputArgs arg ptr reg3 of
                                 None \<Rightarrow> None
                               | Some (ptr', reg') \<Rightarrow> Some reg')) of
                       None \<Rightarrow> None
                     | Some reg4 \<Rightarrow>
                        (case worker_get OutputArgs reg4 arg of
                           None \<Rightarrow> None
                         | Some arg' \<Rightarrow> Some (reg4, arg')))))))"

section \<open>What the register loops compute\<close>

text \<open>
  A tuple of values fits a pack of types when it has one value for each type, of the
  size of that type. The C++ type system guarantees this for every call of the source.
\<close>

definition well_typed :: "cpptype list \<Rightarrow> 8 word list list \<Rightarrow> bool" where
  "well_typed Args vals = list_all2 (\<lambda>T v. length v = sizeof T) Args vals"

text \<open>
  The pieces of the register file after a loop of writes over the first \<open>k\<close> registers
  (the tuple's value where the filter says \<^verbatim>\<open>RegSet\<close>, the old bytes elsewhere), and
  the tuple after a loop of reads (the bytes of the register where the filter says
  \<^verbatim>\<open>RegGet\<close>, the old element elsewhere).
\<close>

definition reg_pieces ::
    "nat \<Rightarrow> (cpptype \<Rightarrow> PosTag) \<Rightarrow> cpptype list \<Rightarrow> regfile \<Rightarrow> 8 word list list \<Rightarrow> nat
      \<Rightarrow> 8 word list list" where
  "reg_pieces B F A reg arg k =
    map (\<lambda>i. if F (A ! i) = RegSet then arg ! i else reg_slice reg (B + offset A i) (sizeof (A ! i)))
      [0 ..< k]"

definition arg_pieces ::
    "nat \<Rightarrow> (cpptype \<Rightarrow> PosTag) \<Rightarrow> cpptype list \<Rightarrow> regfile \<Rightarrow> 8 word list list \<Rightarrow> nat
      \<Rightarrow> 8 word list list" where
  "arg_pieces B F A reg arg k =
    map (\<lambda>i. if F (A ! i) = RegGet then reg_slice reg (B + offset A i) (sizeof (A ! i)) else arg ! i)
      [0 ..< k]"

text \<open>
  In terms of \<^verbatim>\<open>isOutput\<close>: the tuple in which the elements of output type are
  replaced by the bytes of their registers, and the register file in which the
  registers of the other elements are overwritten with the tuple's values.
\<close>

definition copy_back :: "cpptype list \<Rightarrow> regfile \<Rightarrow> 8 word list list \<Rightarrow> 8 word list list" where
  "copy_back OutputArgs reg arg =
    map (\<lambda>i. if isOutput (OutputArgs ! i)
              then reg_slice reg (offset OutputArgs i) (sizeof (OutputArgs ! i))
              else arg ! i)
      [0 ..< length OutputArgs]"

definition restore_readonly :: "cpptype list \<Rightarrow> 8 word list list \<Rightarrow> regfile \<Rightarrow> regfile" where
  "restore_readonly OutputArgs arg reg =
    concat (copy_back OutputArgs reg arg) @ drop (offsetOutput OutputArgs) reg"

section \<open>The execution of a script with events, as the specification describes it\<close>

text \<open>
  Section 4.5 of the specification: "for each before-event: reset read-only inputs,
  run. reset, run the main script. for each after-event: reset read-only inputs, run.
  copy outputs to caller." One run is a reset followed by the bytecode; the chain is the
  runs of the before-events, of the main script and of the after-events in this order,
  started on the register file that holds the caller's output values; the outputs go
  back to the caller once, after the last run.
\<close>

definition reset_and_run ::
    "executor \<Rightarrow> cpptype list \<Rightarrow> 8 word list list \<Rightarrow> 8 word list option \<Rightarrow> regfile
      \<Rightarrow> regfile option" where
  "reset_and_run executeBase OutputArgs arg code reg =
    executeBase code (restore_readonly OutputArgs arg reg)"

fun run_chain ::
    "executor \<Rightarrow> cpptype list \<Rightarrow> 8 word list list \<Rightarrow> 8 word list option list \<Rightarrow> regfile
      \<Rightarrow> regfile option" where
  "run_chain executeBase OutputArgs arg [] reg = Some reg"
| "run_chain executeBase OutputArgs arg (code # codes) reg =
    (case reset_and_run executeBase OutputArgs arg code reg of
       None \<Rightarrow> None
     | Some reg' \<Rightarrow> run_chain executeBase OutputArgs arg codes reg')"

definition events_spec ::
    "executor \<Rightarrow> cpptype list \<Rightarrow> 8 word list option list \<Rightarrow> 8 word list option
      \<Rightarrow> 8 word list option list \<Rightarrow> 8 word list list \<Rightarrow> regfile
      \<Rightarrow> (regfile \<times> 8 word list list) option" where
  "events_spec executeBase OutputArgs before main after arg reg =
    (case run_chain executeBase OutputArgs arg (before @ [main] @ after)
            (concat arg @ drop (offsetOutput OutputArgs) reg) of
       None \<Rightarrow> None
     | Some reg' \<Rightarrow> Some (reg', copy_back OutputArgs reg' arg))"

text \<open>
  The reading of claim C6 in its own words: after the bytecode has run, every value of
  the output region goes back to the caller.
\<close>

definition output_region_values :: "cpptype list \<Rightarrow> regfile \<Rightarrow> 8 word list list" where
  "output_region_values OutputArgs reg =
    map (\<lambda>i. reg_slice reg (offset OutputArgs i) (sizeof (OutputArgs ! i)))
      [0 ..< length OutputArgs]"

section \<open>Concrete inputs for the worked examples\<close>

text \<open>
  A program in which the type looked at is the first one \<^verbatim>\<open>registeTypeImpl\<close> is asked
  for, and an \<^verbatim>\<open>executeBase\<close> that does nothing for the null code pointer and
  otherwise stores the first byte of the code in the first byte of the second
  \<^verbatim>\<open>int\<close> register (offset 4) and returns.
\<close>

definition ord_first :: "cpptype \<Rightarrow> nat" where
  "ord_first T = 0"

definition store_second :: executor where
  "store_second code reg =
    Some (case code of None \<Rightarrow> reg | Some bytes \<Rightarrow> reg[4 := hd bytes])"

section \<open>Properties of the argument kinds\<close>

lemma ArgIsPtrE_imp_ArgIsPtr: "ArgIsPtrE a \<Longrightarrow> ArgIsPtr a"
proof -
  assume h: "ArgIsPtrE a"
  have "a AND 4 = (a AND 12) AND 4" by (simp add: and.assoc)
  also have "\<dots> = 4" using h by (simp add: ArgIsPtrE_def ArgSpecPtrE_def)
  finally show ?thesis by (simp add: ArgIsPtr_def ArgSpecPtr_def)
qed

text \<open>
  Once \<^verbatim>\<open>argType\<close> is an editable pointer, every path of \<^const>\<open>ArgCompatible\<close> ends in
  0: past the test of pointer-ness \<^verbatim>\<open>varType\<close> is a pointer too, and the next test,
  \<^verbatim>\<open>ArgIsPtrE(argType) && ArgIsPtr(varType)\<close>, holds.
\<close>

lemma ArgCompatible_PtrE_zero: "ArgIsPtrE A \<Longrightarrow> ArgCompatible A V n = 0"
proof -
  assume h: "ArgIsPtrE A"
  then have p: "ArgIsPtr A" by (rule ArgIsPtrE_imp_ArgIsPtr)
  show ?thesis
  proof (cases "ArgIsPtr V")
    case True
    with h show ?thesis by (simp add: ArgCompatible_def)
  next
    case False
    with p show ?thesis by (simp add: ArgCompatible_def)
  qed
qed

text \<open>
  Every other valid kind is fully compatible with itself at overload ordinal 0.
\<close>

lemma ArgCompatible_self:
  "A \<noteq> ArgInvalid \<Longrightarrow> \<not> ArgIsPtrE A \<Longrightarrow> ArgCompatible A A 0 = 255"
  by (simp add: ArgCompatible_def)

lemmas Arg_consts =
  ArgSpecNone_def ArgSpecReg_def ArgSpecVar_def ArgSpecPtr_def ArgSpecPtrE_def ArgSpecSize_def
  ArgInvalid_def ArgNull_def ArgInt_def ArgLabel_def ArgMax_def

lemmas Arg_tests =
  ArgBase_def ArgIsReg_def ArgIsVar_def ArgIsPtr_def ArgIsPtrE_def

text \<open>
  Claim C1, as stated, equates \<^const>\<open>ArgCompatible\<close> with the case list of the
  specification for all kinds. It fails at the invalid kind: the source answers 0 for
  \<^verbatim>\<open>argType == ArgInvalid\<close> before any other test, where the case list, finding no
  difference between \<^verbatim>\<open>ArgInvalid\<close> and itself, gives 255.
\<close>

theorem C1_compat_counterexample:
  "ArgCompatible ArgInvalid ArgInvalid 0 \<noteq> compat_spec ArgInvalid ArgInvalid 0"
  by (simp add: ArgCompatible_def compat_spec_def Arg_consts Arg_tests)

text \<open>
  Claim C1, amended: the score is 0 for the invalid declared kind; for every other
  declared kind A and supplied kind V that are not both editable pointers, the score is
  the one of the specification's case list: 0 when A is var and differs from V, when the
  base types differ, when register-ness or pointer-ness differs, or when A is an editable
  pointer and V a non-editable one, and otherwise 255 minus 128 if the editable-pointer
  flags differ, minus 64 if the var flags differ, minus min(n, 8).
\<close>

theorem C1_compat_amended:
  "(A = ArgInvalid \<longrightarrow> ArgCompatible A V n = 0) \<and>
   (A \<noteq> ArgInvalid \<and> \<not> (ArgIsPtrE A \<and> ArgIsPtrE V) \<longrightarrow>
      ArgCompatible A V n = compat_spec A V n)"
proof (intro conjI impI)
  assume "A = ArgInvalid"
  then show "ArgCompatible A V n = 0" by (simp add: ArgCompatible_def)
next
  assume h: "A \<noteq> ArgInvalid \<and> \<not> (ArgIsPtrE A \<and> ArgIsPtrE V)"
  have m: "(if n > 8 then 8 else int n) = int (min n 8)" by (simp add: min_def)
  have c: "(ArgIsPtrE A \<and> ArgIsPtr V) = (ArgIsPtrE A \<and> ArgIsPtr V \<and> \<not> ArgIsPtrE V)"
    using h by blast
  have i: "(A = ArgInvalid) = False" using h by simp
  show "ArgCompatible A V n = compat_spec A V n"
    unfolding ArgCompatible_def compat_spec_def m
    by (simp only: i if_False c)
qed

theorem C1_compat_amended_witness:
  "ArgCompatible ArgInvalid ArgInt 2 = 0 \<and>
   ArgCompatible (ArgSpecAdd ArgInt ArgSpecReg) (ArgSpecAdd ArgInt ArgSpecVar) 30 = 183 \<and>
   compat_spec (ArgSpecAdd ArgInt ArgSpecReg) (ArgSpecAdd ArgInt ArgSpecVar) 30 = 183 \<and>
   ArgCompatible (ArgSpecAdd ArgMax ArgSpecPtr) (ArgSpecAdd ArgMax ArgSpecPtrE) 3 = 124 \<and>
   compat_spec (ArgSpecAdd ArgMax ArgSpecPtr) (ArgSpecAdd ArgMax ArgSpecPtrE) 3 = 124"
proof -
  have a: "ArgCompatible ArgInvalid ArgInt 2 = 0"
    using C1_compat_amended [of ArgInvalid ArgInt 2] by simp
  have r: "ArgSpecAdd ArgInt ArgSpecReg = 33" "ArgSpecAdd ArgInt ArgSpecVar = 35"
    "ArgSpecAdd ArgMax ArgSpecPtr = 68" "ArgSpecAdd ArgMax ArgSpecPtrE = 76"
    by (simp_all add: ArgSpecAdd_def Arg_consts Arg_tests)
  have s1: "compat_spec 33 35 30 = 183"
    by (simp add: compat_spec_def Arg_consts Arg_tests)
  have s2: "compat_spec 68 76 3 = 124"
    by (simp add: compat_spec_def Arg_consts Arg_tests)
  have b: "ArgCompatible 33 35 30 = compat_spec 33 35 30"
    using C1_compat_amended [of 33 35 30] by (simp add: Arg_consts Arg_tests)
  have c: "ArgCompatible 68 76 3 = compat_spec 68 76 3"
    using C1_compat_amended [of 68 76 3] by (simp add: Arg_consts Arg_tests)
  show ?thesis using a b c s1 s2 r by simp
qed

text \<open>
  Claim C2 asks for the score 255 when a decorated kind is matched with itself at
  overload ordinal 0, for every flag combination, as the comment of the source promises
  ("255 if both types are same"). For the editable-pointer flag the source returns 0:
  here the first host-registered type, \<^verbatim>\<open>ArgMax\<close>, as an editable pointer.
\<close>

theorem C2_self_compat_PtrE_zero:
  "ArgCompatible (ArgSpecAdd ArgMax ArgSpecPtrE) (ArgSpecAdd ArgMax ArgSpecPtrE) 0 = 0"
  by (simp add: ArgCompatible_def ArgSpecAdd_def Arg_consts Arg_tests)

section \<open>Properties of the containers\<close>

text \<open>
  Claim C3, as stated, makes every container, the events variant included, true exactly
  when its bytecode vector is not empty. An events container with an empty script is
  true all the same.
\<close>

theorem C3_events_truthy_counterexample:
  "\<not> (ScriptContainerEventsBase_bool \<lparr>current = \<lparr>proc = []\<rparr>, events = None\<rparr>
        = (proc (current \<lparr>current = \<lparr>proc = []\<rparr>, events = None\<rparr>) \<noteq> []))"
  by (simp add: ScriptContainerEventsBase_bool_def)

text \<open>
  Claim C3, amended: a plain script container is true exactly when its bytecode vector
  is not empty; a container with empty bytecode (a failed compile) is false, hands out
  the null pointer as its code, and \<^verbatim>\<open>ScriptWorkerBlit::update\<close> answers it by
  clearing the worker's script. The events variant is true whatever its bytecode is.
\<close>

theorem C3_truthy_amended:
  "ScriptContainerBase_bool c = (proc c \<noteq> []) \<and>
   ScriptContainerBase_bool \<lparr>proc = []\<rparr> = False \<and>
   ScriptContainerBase_data \<lparr>proc = []\<rparr> = None \<and>
   update Args \<lparr>proc = []\<rparr> args w = Some (w\<lparr>blit_proc := None\<rparr>) \<and>
   ScriptContainerEventsBase_bool e = True"
  by (simp add: ScriptContainerBase_bool_def ScriptContainerBase_data_def
      ScriptContainerEventsBase_bool_def update_def clear_def)

section \<open>Properties of script symbols\<close>

lemma length_read_bytes [simp]: "length (read_bytes mem p n) = n"
  by (induction n arbitrary: p) simp_all

lemma memcmp_eq_0: "memcmp mem p q n = 0 \<longleftrightarrow> read_bytes mem p n = read_bytes mem q n"
  by (induction n arbitrary: p q) simp_all

lemma memcmp_less_0:
  "memcmp mem p q n < 0 \<longleftrightarrow>
     (read_bytes mem p n, read_bytes mem q n) \<in> lexord {(x, y). x < y}"
  by (induction n arbitrary: p q) simp_all

text \<open>
  Claim C9: comparison of script symbols orders by length before content. Two ranges are
  equal exactly when they have the same length and the same bytes; \<open>a < b\<close> holds exactly
  when \<open>a\<close> is shorter, or the lengths agree and \<^verbatim>\<open>memcmp\<close> of the bytes is negative,
  that is, the bytes of \<open>a\<close> come first in the lexicographic order of unsigned bytes. A
  shorter range is less than every longer one, whatever the contents; and \<open>!=\<close> is the
  negation of \<open>==\<close>.
\<close>

theorem C9_ScriptRef_order:
  assumes "ScriptRef_wf a" and "ScriptRef_wf b"
  shows "(ScriptRef_eq mem a b \<longleftrightarrow>
            ScriptRef_size a = ScriptRef_size b \<and>
            ScriptRef_bytes mem a = ScriptRef_bytes mem b) \<and>
         (ScriptRef_less mem a b \<longleftrightarrow>
            ScriptRef_size a < ScriptRef_size b \<or>
            (ScriptRef_size a = ScriptRef_size b \<and>
             memcmp mem (ref_begin a) (ref_begin b) (ScriptRef_size a) < 0)) \<and>
         (ScriptRef_less mem a b \<longleftrightarrow>
            ScriptRef_size a < ScriptRef_size b \<or>
            (ScriptRef_size a = ScriptRef_size b \<and>
             (ScriptRef_bytes mem a, ScriptRef_bytes mem b) \<in> lexord {(x, y). x < y})) \<and>
         (ScriptRef_size a < ScriptRef_size b \<longrightarrow> ScriptRef_less mem a b) \<and>
         (ScriptRef_noteq mem a b \<longleftrightarrow> \<not> ScriptRef_eq mem a b)"
  using assms
  by (auto simp add: ScriptRef_eq_def ScriptRef_noteq_def ScriptRef_less_def compare_def
      Let_def memcmp_eq_0 memcmp_less_0 ScriptRef_bytes_def)

theorem C9_ScriptRef_order_witness:
  "ScriptRef_less (\<lambda>i. word_of_nat i) \<lparr>ref_begin = 10, ref_end = 11\<rparr> \<lparr>ref_begin = 2, ref_end = 4\<rparr> \<and>
   \<not> ScriptRef_eq (\<lambda>i. word_of_nat i) \<lparr>ref_begin = 10, ref_end = 11\<rparr> \<lparr>ref_begin = 2, ref_end = 4\<rparr> \<and>
   ScriptRef_eq (\<lambda>i. word_of_nat (i mod 4)) \<lparr>ref_begin = 1, ref_end = 3\<rparr> \<lparr>ref_begin = 5, ref_end = 7\<rparr>"
proof -
  have w: "ScriptRef_wf \<lparr>ref_begin = 10, ref_end = 11\<rparr>" "ScriptRef_wf \<lparr>ref_begin = 2, ref_end = 4\<rparr>"
    "ScriptRef_wf \<lparr>ref_begin = 1, ref_end = 3\<rparr>" "ScriptRef_wf \<lparr>ref_begin = 5, ref_end = 7\<rparr>"
    by (simp_all add: ScriptRef_wf_def)
  have b: "ScriptRef_bytes (\<lambda>i. word_of_nat (i mod 4)) \<lparr>ref_begin = 1, ref_end = 3\<rparr>
         = ScriptRef_bytes (\<lambda>i. word_of_nat (i mod 4)) \<lparr>ref_begin = 5, ref_end = 7\<rparr>"
    by (simp add: ScriptRef_bytes_def ScriptRef_size_def numeral_2_eq_2)
  show ?thesis
    using C9_ScriptRef_order [OF w(1) w(2), of "\<lambda>i. word_of_nat i"]
      C9_ScriptRef_order [OF w(3) w(4), of "\<lambda>i. word_of_nat (i mod 4)"] b
    by (simp add: ScriptRef_size_def)
qed

text \<open>
  Claim C10: \<^verbatim>\<open>substr\<close> is total and stays in bounds. For a range \<open>r\<close> of size \<open>n\<close> and
  any \<open>p\<close> and \<open>s\<close>: if \<open>p \<ge> n\<close> the result is the empty default range; otherwise it
  starts at offset \<open>p\<close> inside \<open>r\<close> and has length \<open>min s (n - p)\<close>. In both cases the
  result is a well-formed range and every address of it is an address of \<open>r\<close>.
\<close>

theorem C10_substr_in_bounds:
  assumes "ScriptRef_wf r"
  shows "(p \<ge> ScriptRef_size r \<longrightarrow> substr r p s = ScriptRef_default) \<and>
         (p < ScriptRef_size r \<longrightarrow>
            ref_begin (substr r p s) = ref_begin r + p \<and>
            ScriptRef_size (substr r p s) = min s (ScriptRef_size r - p)) \<and>
         ScriptRef_wf (substr r p s) \<and>
         (\<forall>x. ref_begin (substr r p s) \<le> x \<and> x < ref_end (substr r p s) \<longrightarrow>
              ref_begin r \<le> x \<and> x < ref_end r)"
  using assms
  by (auto simp add: substr_def Let_def ScriptRef_size_def ScriptRef_wf_def ScriptRef_default_def)

theorem C10_substr_in_bounds_witness:
  "substr \<lparr>ref_begin = 100, ref_end = 110\<rparr> 12 4 = ScriptRef_default \<and>
   ref_begin (substr \<lparr>ref_begin = 100, ref_end = 110\<rparr> 3 4) = 103 \<and>
   ScriptRef_size (substr \<lparr>ref_begin = 100, ref_end = 110\<rparr> 3 4) = 4 \<and>
   ScriptRef_size (substr \<lparr>ref_begin = 100, ref_end = 110\<rparr> 3 20) = 7"
proof -
  have w: "ScriptRef_wf \<lparr>ref_begin = 100, ref_end = 110\<rparr>" by (simp add: ScriptRef_wf_def)
  have n: "ScriptRef_size \<lparr>ref_begin = 100, ref_end = 110\<rparr> = 10" by (simp add: ScriptRef_size_def)
  show ?thesis
    using C10_substr_in_bounds [OF w, of 12 4] C10_substr_in_bounds [OF w, of 3 4]
      C10_substr_in_bounds [OF w, of 3 20] n
    by simp
qed

section \<open>Properties of the run-time kinds of host types\<close>

lemma low_nibble_mult16: "(16 * y :: 8 word) AND 15 = 0"
proof -
  have "(16 * y :: 8 word) = push_bit 4 y" by (simp add: push_bit_eq_mult)
  moreover have "(push_bit 4 y :: 8 word) AND 15 = take_bit 4 (push_bit 4 y)"
    by (simp add: take_bit_eq_mask mask_numeral)
  ultimately show ?thesis by (simp add: take_bit_push_bit)
qed

lemma NextValue_eq: "registeTypeImplNextValue k = 16 * (4 + word_of_nat k)"
  unfolding registeTypeImplNextValue_def
  by (induction k) (simp_all add: ArgNext_def Arg_consts algebra_simps)

lemma low_registeTypeImpl: "registeTypeImpl ord T AND 15 = 0"
proof -
  have "registeTypeImplNextValue (ord T) AND 15 = 0"
    by (simp only: NextValue_eq low_nibble_mult16)
  then show ?thesis by (simp add: registeTypeImpl_def Arg_consts)
qed

lemma flags_of_base:
  assumes "(b :: 8 word) AND 15 = 0"
  shows "(b OR s) AND 3 = s AND 3" "(b OR s) AND 12 = s AND 12" "(b OR s) AND 4 = s AND 4"
proof -
  have a: "b AND 3 = (b AND 15) AND 3" "b AND 12 = (b AND 15) AND 12" "b AND 4 = (b AND 15) AND 4"
    by (simp_all add: and.assoc)
  show "(b OR s) AND 3 = s AND 3" "(b OR s) AND 12 = s AND 12" "(b OR s) AND 4 = s AND 4"
    using a assms by (simp_all add: bit.conj_disj_distrib2)
qed

lemma getArgType_flags:
  assumes "ArgBase (registeTypeImpl ord (t3 T)) \<noteq> ArgInvalid"
  shows "ArgIsVar (getArgType ord T) = isRef T"
    and "ArgIsPtr (getArgType ord T) = isPtr T"
    and "ArgIsPtrE (getArgType ord T) = isEditable T"
  using assms flags_of_base [OF low_registeTypeImpl [of ord "t3 T"]]
  by (simp_all add: getArgType_def ArgSpecAdd_def Let_def Arg_tests isEditable_def
      ArgSpecNone_def ArgSpecVar_def ArgSpecPtr_def ArgSpecPtrE_def)

lemma no_ref_remove_cv: "no_ref t \<Longrightarrow> \<not> is_const (remove_cv t)"
  by (cases t rule: no_ref.cases) simp_all

lemma no_ref_remove_reference: "cpp_wf T \<Longrightarrow> no_ref (remove_reference T)"
  by (cases T) simp_all

lemma decay_not_const: "cpp_wf T \<Longrightarrow> \<not> is_const (decay T)"
  unfolding decay_def by (rule no_ref_remove_cv) (rule no_ref_remove_reference)

lemma isEditable_iff: "cpp_wf T \<Longrightarrow> isEditable T = pointer_to_nonconst T"
  using decay_not_const [of T]
  unfolding isEditable_def isPtr_def t2_def t1_def pointer_to_nonconst_def
  by (cases "decay T" rule: is_pointer.cases) simp_all

lemma isOutput_eq_isRef: "isOutput T = isRef T"
  by (cases T) (simp_all add: isOutput_def isRef_def)

text \<open>
  Claim C7, as stated, sets the var flag exactly for the references to a type that is not
  \<^verbatim>\<open>const\<close>. \<^verbatim>\<open>getArgType\<close> tests \<^verbatim>\<open>info::isRef\<close> alone: for
  \<^verbatim>\<open>const int&\<close> the flag is set.
\<close>

theorem C7_var_flag_counterexample:
  "ArgIsVar (getArgType ord_first (TRef (TConst TInt))) \<and>
   \<not> nonconst_reference (TRef (TConst TInt))"
  by (simp add: getArgType_def ArgSpecAdd_def Let_def Arg_tests Arg_consts isRef_def isPtr_def
      isEditable_def t1_def t2_def t3_def decay_def registeTypeImpl_def)

text \<open>
  Claim C7, amended: for a host type \<open>T\<close> whose base type has a valid kind,
  \<^verbatim>\<open>getArgType<T>\<close> sets the var flag exactly when \<open>T\<close> is a reference type, to a
  \<^verbatim>\<open>const\<close> type or not (and \<^verbatim>\<open>TypeInfoImpl<T>::isOutput\<close> is true for exactly
  the same types); it sets the editable-pointer flag exactly when \<open>T\<close>, after
  \<^verbatim>\<open>std::decay\<close>, is a pointer to a type that is not \<^verbatim>\<open>const\<close>.
\<close>

theorem C7_getArgType_flags:
  assumes "cpp_wf T" and "ArgBase (registeTypeImpl ord (t3 T)) \<noteq> ArgInvalid"
  shows "(ArgIsVar (getArgType ord T) \<longleftrightarrow> is_reference T) \<and>
         (isOutput T \<longleftrightarrow> is_reference T) \<and>
         (ArgIsPtrE (getArgType ord T) \<longleftrightarrow> pointer_to_nonconst T)"
  using getArgType_flags(1,3) [OF assms(2)] isEditable_iff [OF assms(1)]
  by (simp add: isOutput_eq_isRef isRef_def)

theorem C7_getArgType_flags_witness:
  "ArgIsVar (getArgType (\<lambda>T. 0) (TRef (TPtr (TClass 1 40)))) \<and>
   ArgIsPtrE (getArgType (\<lambda>T. 0) (TRef (TPtr (TClass 1 40)))) \<and>
   \<not> ArgIsVar (getArgType (\<lambda>T. 0) (TPtr (TConst (TClass 1 40)))) \<and>
   \<not> ArgIsPtrE (getArgType (\<lambda>T. 0) (TPtr (TConst (TClass 1 40))))"
proof -
  have b: "ArgBase (registeTypeImpl (\<lambda>T. 0) (t3 (TRef (TPtr (TClass 1 40))))) \<noteq> ArgInvalid"
    "ArgBase (registeTypeImpl (\<lambda>T. 0) (t3 (TPtr (TConst (TClass 1 40))))) \<noteq> ArgInvalid"
    by (simp_all add: registeTypeImpl_def registeTypeImplNextValue_def t1_def t2_def t3_def
        decay_def Arg_consts Arg_tests)
  have w: "cpp_wf (TRef (TPtr (TClass 1 40)))" "cpp_wf (TPtr (TConst (TClass 1 40)))"
    by simp_all
  show ?thesis
    using C7_getArgType_flags [OF w(1) b(1)] C7_getArgType_flags [OF w(2) b(2)]
    by (simp add: pointer_to_nonconst_def decay_def)
qed

section \<open>Properties of script values\<close>

text \<open>
  Claim C8: \<^verbatim>\<open>v.getValue<T>()\<close> throws the invalid-cast exception exactly when the
  stored kind differs from \<^verbatim>\<open>getArgType<T>\<close>. When the kinds agree it returns the
  stored bytes read as a \<open>T\<close>; and a value data made from a value \<open>t\<close> of type \<open>T\<close>
  gives \<open>t\<close> back, without throwing.
\<close>

theorem C8_getValue:
  "(getValue ord T v = Inl InvalidCast \<longleftrightarrow> vd_type v \<noteq> getArgType ord T) \<and>
   (isValueType ord T v \<longleftrightarrow> vd_type v = getArgType ord T) \<and>
   (vd_type v = getArgType ord T \<and> sizeof T \<le> length (vd_data v) \<longrightarrow>
      getValue ord T v = Inr (take (sizeof T) (vd_data v))) \<and>
   (length t = sizeof T \<and> sizeof T \<le> sizeof_ptr \<and> length raw = sizeof_ptr \<longrightarrow>
      getValue ord T (ScriptValueData_from ord T raw t) = Inr t)"
  by (simp add: getValue_def isValueType_def ScriptValueData_from_def)

theorem C8_getValue_witness:
  "getValue (\<lambda>T. 0) TInt (ScriptValueData_from (\<lambda>T. 0) TInt [9, 9, 9, 9, 9, 9, 9, 9] [1, 2, 3, 4])
     = Inr [1, 2, 3, 4] \<and>
   getValue (\<lambda>T. 0) (TPtr TInt) (ScriptValueData_from (\<lambda>T. 0) TInt [9, 9, 9, 9, 9, 9, 9, 9] [1, 2, 3, 4])
     = Inl InvalidCast"
proof -
  have k: "vd_type (ScriptValueData_from (\<lambda>T. 0) TInt [9, 9, 9, 9, 9, 9, 9, 9] [1, 2, 3, 4])
             \<noteq> getArgType (\<lambda>T. 0) (TPtr TInt)"
    by (simp add: ScriptValueData_from_def getArgType_def ArgSpecAdd_def Let_def Arg_tests
        Arg_consts isRef_def isPtr_def isEditable_def t1_def t2_def t3_def decay_def
        registeTypeImpl_def)
  show ?thesis
    using C8_getValue [of "\<lambda>T. 0" TInt _ "[1, 2, 3, 4]" "[9, 9, 9, 9, 9, 9, 9, 9]"]
      C8_getValue [of "\<lambda>T. 0" "TPtr TInt"
        "ScriptValueData_from (\<lambda>T. 0) TInt [9, 9, 9, 9, 9, 9, 9, 9] [1, 2, 3, 4]"] k
    by (simp add: sizeof_int_def sizeof_ptr_def)
qed

section \<open>Properties of the register loops\<close>


lemma sizeof_remove_cv: "sizeof (remove_cv T) = sizeof T"
  by (cases T) simp_all

lemma sizeof_remove_reference: "sizeof (remove_reference T) = sizeof T"
  by (cases T) simp_all

lemma sizeof_decay: "sizeof (decay T) = sizeof T"
  by (simp add: decay_def sizeof_remove_cv sizeof_remove_reference)

lemma offset_sum: "offset Args i = sum_list (map sizeof (take i Args))"
proof (induction Args i rule: offset.induct)
  case (1 i)
  show ?case by simp
next
  case (2 First i)
  show ?case by (cases i) simp_all
next
  case (3 First Second Rest i)
  show ?case
  proof (cases i)
    case 0
    then show ?thesis by simp
  next
    case (Suc k)
    show ?thesis
    proof (cases k)
      case 0
      with Suc show ?thesis by simp
    next
      case (Suc m)
      with \<open>i = Suc k\<close> 3 show ?thesis by simp
    qed
  qed
qed

lemma offset_0 [simp]: "offset Args 0 = 0"
  by (simp add: offset_sum)

lemma offset_Suc: "i < length Args \<Longrightarrow> offset Args (Suc i) = offset Args i + sizeof (Args ! i)"
  by (simp add: offset_sum take_Suc_conv_app_nth)

lemma offset_mono: "i \<le> j \<Longrightarrow> offset Args i \<le> offset Args j"
proof -
  assume "i \<le> j"
  then have "take j Args = take i Args @ take (j - i) (drop i Args)"
    by (metis le_add_diff_inverse take_add)
  then show ?thesis by (simp add: offset_sum)
qed

lemma offset_le_offsetOutput: "offset Args i \<le> offsetOutput Args"
  by (simp add: offset_sum offsetOutput_def)
     (metis append_take_drop_id le_add1 map_append sum_list.append)

lemma forRegImpl_append:
  "forRegImpl B F A (xs @ ys) st =
     (case forRegImpl B F A xs st of None \<Rightarrow> None | Some st' \<Rightarrow> forRegImpl B F A ys st')"
  by (induction xs arbitrary: st) (simp_all split: option.splits)


lemma length_reg_slice: "off + n \<le> length reg \<Longrightarrow> length (reg_slice reg off n) = n"
  by (simp add: reg_slice_def)

lemma reg_slice_append_drop: "reg_slice reg off n @ drop (off + n) reg = drop off reg"
  by (simp add: reg_slice_def add.commute flip: drop_drop)

lemma take_prefix: "length xs = m \<Longrightarrow> take m (xs @ ys) = xs"
  by simp

lemma drop_prefix: "length xs = m \<Longrightarrow> drop (m + n) (xs @ ys) = drop n ys"
  by simp

lemma length_concat_reg_pieces:
  assumes "k \<le> length A" and "\<forall>i<k. length (arg ! i) = sizeof (A ! i)"
    and "B + offset A k \<le> length reg"
  shows "length (concat (reg_pieces B F A reg arg k)) = offset A k"
  using assms
proof (induction k)
  case 0
  show ?case by (simp add: reg_pieces_def)
next
  case (Suc k)
  have o: "offset A (Suc k) = offset A k + sizeof (A ! k)"
    using Suc.prems(1) by (simp add: offset_Suc)
  have ih: "length (concat (reg_pieces B F A reg arg k)) = offset A k"
    using Suc o by simp
  have "length (if F (A ! k) = RegSet then arg ! k
                else reg_slice reg (B + offset A k) (sizeof (A ! k))) = sizeof (A ! k)"
    using Suc.prems o by (simp add: length_reg_slice)
  with ih o show ?case by (simp add: reg_pieces_def)
qed

lemma forRegImpl_set_like:
  assumes "\<forall>T. F T \<noteq> RegGet" and "k \<le> length A"
    and "\<forall>i<k. length (arg ! i) = sizeof (A ! i)"
    and "B + offset A k \<le> length reg"
  shows "forRegImpl B F A [0 ..< k] (reg, arg) =
           Some (take B reg @ concat (reg_pieces B F A reg arg k) @ drop (B + offset A k) reg, arg)"
  using assms(2-4)
proof (induction k)
  case 0
  show ?case by (simp add: reg_pieces_def)
next
  case (Suc k)
  let ?P = "reg_pieces B F A reg arg k"
  let ?off = "B + offset A k"
  let ?n = "sizeof (A ! k)"
  let ?regk = "take B reg @ concat ?P @ drop ?off reg"
  have o: "offset A (Suc k) = offset A k + ?n"
    using Suc.prems(1) by (simp add: offset_Suc)
  have fit: "?off + ?n \<le> length reg" using Suc.prems(3) o by simp
  have ih: "forRegImpl B F A [0 ..< k] (reg, arg) = Some (?regk, arg)"
    using Suc o by simp
  have lp: "length (concat ?P) = offset A k"
    using Suc.prems fit by (intro length_concat_reg_pieces) simp_all
  have lpre: "length (take B reg @ concat ?P) = ?off" using lp fit by simp
  have lk: "length (arg ! k) = ?n" using Suc.prems(2) by simp
  have P': "reg_pieces B F A reg arg (Suc k) =
              ?P @ [if F (A ! k) = RegSet then arg ! k else reg_slice reg ?off ?n]"
    by (simp add: reg_pieces_def)
  have step: "forRegImplLoop (F (A ! k)) B k A (?regk, arg) =
      Some (take B reg @ concat (reg_pieces B F A reg arg (Suc k)) @ drop (B + offset A (Suc k)) reg, arg)"
  proof (cases "F (A ! k)")
    case RegSet
    have r: "?regk = (take B reg @ concat ?P) @ drop ?off reg" by simp
    have t: "take ?off ?regk = take B reg @ concat ?P"
      unfolding r using lpre by (rule take_prefix)
    have "drop (?off + ?n) ?regk = drop ?n (drop ?off reg)"
      unfolding r using lpre by (rule drop_prefix)
    then have d: "drop (?off + ?n) ?regk = drop (?off + ?n) reg"
      by (simp add: add.commute)
    have len: "length ?regk = length reg" using lpre fit by simp
    have w: "ref_write ?regk ?off (arg ! k) =
               Some (take ?off ?regk @ arg ! k @ drop (?off + ?n) ?regk)"
      using len fit lk by (simp only: ref_write_def if_True)
    have e: "take ?off ?regk @ arg ! k @ drop (?off + ?n) ?regk =
             take B reg @ concat (reg_pieces B F A reg arg (Suc k)) @ drop (B + offset A (Suc k)) reg"
      unfolding t d using RegSet by (simp add: P' o add.assoc)
    show ?thesis
      unfolding RegSet by (simp only: forRegImplLoop.simps w option.case e)
  next
    case RegNone
    then show ?thesis using o P' reg_slice_append_drop [of reg ?off ?n] by (simp add: add.assoc)
  next
    case RegGet
    with assms(1) show ?thesis by simp
  qed
  show ?case using ih step by (simp add: forRegImpl_append)
qed


lemma forRegImpl_get_like:
  assumes "\<forall>T. F T \<noteq> RegSet" and "k \<le> length A" and "length arg = length A"
    and "B + offset A k \<le> length reg"
  shows "forRegImpl B F A [0 ..< k] (reg, arg) =
           Some (reg, arg_pieces B F A reg arg k @ drop k arg)"
  using assms(2,4)
proof (induction k)
  case 0
  show ?case by (simp add: arg_pieces_def)
next
  case (Suc k)
  let ?Q = "arg_pieces B F A reg arg k"
  let ?off = "B + offset A k"
  let ?n = "sizeof (A ! k)"
  have o: "offset A (Suc k) = offset A k + ?n"
    using Suc.prems(1) by (simp add: offset_Suc)
  have fit: "?off + ?n \<le> length reg" using Suc.prems(2) o by simp
  have ih: "forRegImpl B F A [0 ..< k] (reg, arg) = Some (reg, ?Q @ drop k arg)"
    using Suc o by simp
  have lq: "length ?Q = k" by (simp add: arg_pieces_def)
  have kk: "k < length arg" using Suc.prems(1) assms(3) by simp
  have dk: "drop k arg = arg ! k # drop (Suc k) arg"
    using kk by (simp add: Cons_nth_drop_Suc)
  have Q': "arg_pieces B F A reg arg (Suc k) =
              ?Q @ [if F (A ! k) = RegGet then reg_slice reg ?off ?n else arg ! k]"
    by (simp add: arg_pieces_def)
  have step: "forRegImplLoop (F (A ! k)) B k A (reg, ?Q @ drop k arg) =
      Some (reg, arg_pieces B F A reg arg (Suc k) @ drop (Suc k) arg)"
  proof (cases "F (A ! k)")
    case RegSet
    with assms(1) show ?thesis by simp
  next
    case RegNone
    then show ?thesis using Q' dk by simp
  next
    case RegGet
    have u: "(?Q @ drop k arg)[k := reg_slice reg ?off ?n] =
             ?Q @ reg_slice reg ?off ?n # drop (Suc k) arg"
      using lq dk by (simp add: list_update_append)
    show ?thesis using RegGet fit Q' u
      by (simp add: ref_read_def sizeof_decay)
  qed
  show ?case using ih step by (simp add: forRegImpl_append)
qed

lemma well_typed_length: "well_typed A vs \<Longrightarrow> length vs = length A"
  by (simp add: well_typed_def list_all2_lengthD)

lemma well_typed_nth: "well_typed A vs \<Longrightarrow> i < length A \<Longrightarrow> length (vs ! i) = sizeof (A ! i)"
  unfolding well_typed_def by (drule list_all2_nthD [where p = i]) simp_all

lemma reg_pieces_SetAllRegs:
  "length vals = length A \<Longrightarrow> reg_pieces B SetAllRegs A reg vals (length A) = vals"
  using map_nth [of vals] by (simp add: reg_pieces_def SetAllRegs_def)

lemma worker_set_closed:
  assumes "well_typed Outs arg" and "offsetOutput Outs \<le> length reg"
  shows "worker_set Outs arg reg = Some (concat arg @ drop (offsetOutput Outs) reg)"
proof -
  note p = reg_pieces_SetAllRegs [OF well_typed_length [OF assms(1)]]
  have "forRegImpl 0 SetAllRegs Outs [0 ..< length Outs] (reg, arg) =
        Some (take 0 reg @ concat (reg_pieces 0 SetAllRegs Outs reg arg (length Outs))
                @ drop (0 + offset Outs (length Outs)) reg, arg)"
    using assms by (intro forRegImpl_set_like) (simp_all add: SetAllRegs_def well_typed_nth offsetOutput_def)
  then show ?thesis by (simp add: worker_set_def forReg_def p offsetOutput_def)
qed

lemma worker_reset_closed:
  assumes "well_typed Outs arg" and "offsetOutput Outs \<le> length reg"
  shows "worker_reset Outs arg reg = Some (restore_readonly Outs arg reg)"
proof -
  have p: "reg_pieces 0 SetReadonlyRegs Outs reg arg (length Outs) = copy_back Outs reg arg"
    by (simp add: reg_pieces_def SetReadonlyRegs_def copy_back_def)
  have "forRegImpl 0 SetReadonlyRegs Outs [0 ..< length Outs] (reg, arg) =
        Some (take 0 reg @ concat (reg_pieces 0 SetReadonlyRegs Outs reg arg (length Outs))
                @ drop (0 + offset Outs (length Outs)) reg, arg)"
    using assms by (intro forRegImpl_set_like) (simp_all add: SetReadonlyRegs_def well_typed_nth offsetOutput_def)
  then show ?thesis by (simp add: worker_reset_def forReg_def p offsetOutput_def restore_readonly_def)
qed

lemma worker_get_closed:
  assumes "length arg = length Outs" and "offsetOutput Outs \<le> length reg"
  shows "worker_get Outs reg arg = Some (copy_back Outs reg arg)"
proof -
  have p: "arg_pieces 0 GetWritableRegs Outs reg arg (length Outs) = copy_back Outs reg arg"
    by (simp add: arg_pieces_def GetWritableRegs_def copy_back_def)
  have "forRegImpl 0 GetWritableRegs Outs [0 ..< length Outs] (reg, arg) =
        Some (reg, arg_pieces 0 GetWritableRegs Outs reg arg (length Outs) @ drop (length Outs) arg)"
    using assms by (intro forRegImpl_get_like) (simp_all add: GetWritableRegs_def offsetOutput_def)
  then show ?thesis using assms(1) by (simp add: worker_get_def forReg_def p)
qed

lemma updateBase_closed:
  assumes "well_typed Args vals" and "offsetOutput Outs + offsetOutput Args \<le> ScriptMaxReg"
  shows "updateBase Outs Args vals =
           Some (replicate (offsetOutput Outs) 0 @ concat vals @
                 replicate (ScriptMaxReg - (offsetOutput Outs + offsetOutput Args)) 0)"
proof -
  let ?reg = "replicate ScriptMaxReg (0 :: 8 word)"
  note p = reg_pieces_SetAllRegs [OF well_typed_length [OF assms(1)]]
  have "forRegImpl (offsetOutput Outs) SetAllRegs Args [0 ..< length Args] (?reg, vals) =
        Some (take (offsetOutput Outs) ?reg
                @ concat (reg_pieces (offsetOutput Outs) SetAllRegs Args ?reg vals (length Args))
                @ drop (offsetOutput Outs + offset Args (length Args)) ?reg, vals)"
    using assms by (intro forRegImpl_set_like) (simp_all add: SetAllRegs_def well_typed_nth offsetOutput_def)
  then show ?thesis using assms(2)
    by (simp add: updateBase_def forReg_def p offsetOutput_def min_def)
qed


lemma length_concat_take:
  assumes "\<forall>i<n. length (ps ! i) = sizeof (A ! i)" and "n \<le> length ps" and "n \<le> length A"
  shows "length (concat (take n ps)) = offset A n"
proof -
  have "map length (take n ps) = map sizeof (take n A)"
    using assms by (intro nth_equalityI) simp_all
  then show ?thesis by (simp add: length_concat offset_sum)
qed

lemma reg_slice_mid: "length xs = m \<Longrightarrow> length v = n \<Longrightarrow> reg_slice (xs @ v @ ys) m n = v"
  by (simp add: reg_slice_def)

lemma reg_slice_concat:
  assumes "\<forall>i<length ps. length (ps ! i) = sizeof (A ! i)" and "length ps \<le> length A"
    and "i < length ps" and "length pre = B"
  shows "reg_slice (pre @ concat ps @ post) (B + offset A i) (sizeof (A ! i)) = ps ! i"
proof -
  have l: "length (concat (take i ps)) = offset A i"
    using assms by (intro length_concat_take) simp_all
  have "ps = take i ps @ ps ! i # drop (Suc i) ps"
    using assms(3) by (rule id_take_nth_drop)
  then have "concat ps = concat (take i ps) @ ps ! i @ concat (drop (Suc i) ps)"
    by (metis concat.simps(2) concat_append)
  then have eq: "pre @ concat ps @ post =
             (pre @ concat (take i ps)) @ ps ! i @ (concat (drop (Suc i) ps) @ post)"
    by simp
  have l1: "length (pre @ concat (take i ps)) = B + offset A i"
    using l assms(4) by simp
  have l2: "length (ps ! i) = sizeof (A ! i)" using assms(1,3) by simp
  show ?thesis unfolding eq using l1 l2 by (rule reg_slice_mid)
qed

lemma offset_covers:
  assumes "j < offset A n" and "n \<le> length A"
  shows "\<exists>i<n. offset A i \<le> j \<and> j < offset A i + sizeof (A ! i)"
  using assms
proof (induction n)
  case 0
  then show ?case by simp
next
  case (Suc n)
  have o: "offset A (Suc n) = offset A n + sizeof (A ! n)"
    using Suc.prems(2) by (simp add: offset_Suc)
  show ?case
  proof (cases "j < offset A n")
    case True
    with Suc obtain i where "i < n" "offset A i \<le> j" "j < offset A i + sizeof (A ! i)"
      by auto
    then show ?thesis by (intro exI [of _ i]) simp
  next
    case False
    with Suc.prems(1) o show ?thesis by (intro exI [of _ n]) simp
  qed
qed

section \<open>Properties of the worker\<close>

text \<open>
  Claim C5: for every output type and every tuple of input values of the declared input
  types that fit the register file after the output region, \<^verbatim>\<open>updateBase\<close> leaves a
  register file of \<^verbatim>\<open>ScriptMaxReg\<close> bytes that holds each input value at its offset:
  the inputs lie one after the other from the end of the output region on (the offset of
  input \<open>i\<close> is the sum of the sizes of the inputs before it). Every byte that belongs
  to no input is zero.
\<close>

theorem C5_updateBase:
  assumes "well_typed Args args"
    and "offsetOutput OutputArgs + offsetOutput Args \<le> ScriptMaxReg"
  shows "\<exists>reg. updateBase OutputArgs Args args = Some reg \<and> length reg = ScriptMaxReg \<and>
           (\<forall>i<length Args.
              offset Args i = sum_list (map sizeof (take i Args)) \<and>
              reg_slice reg (offsetOutput OutputArgs + offset Args i) (sizeof (Args ! i)) = args ! i) \<and>
           (\<forall>j<ScriptMaxReg.
              (\<forall>i<length Args. j < offsetOutput OutputArgs + offset Args i \<or>
                    offsetOutput OutputArgs + offset Args i + sizeof (Args ! i) \<le> j)
              \<longrightarrow> reg ! j = 0)"
proof -
  let ?B = "offsetOutput OutputArgs"
  let ?rest = "replicate (ScriptMaxReg - (?B + offsetOutput Args)) (0 :: 8 word)"
  let ?reg = "replicate ?B 0 @ concat args @ ?rest"
  have la: "length args = length Args" using assms(1) by (rule well_typed_length)
  have ln: "\<forall>i<length args. length (args ! i) = sizeof (Args ! i)"
    using assms(1) la by (simp add: well_typed_nth)
  have lc: "length (concat args) = offsetOutput Args"
    using length_concat_take [of "length Args" args Args] ln la by (simp add: offsetOutput_def)
  have u: "updateBase OutputArgs Args args = Some ?reg"
    using assms by (rule updateBase_closed)
  have len: "length ?reg = ScriptMaxReg" using lc assms(2) by simp
  have sl: "\<forall>i<length Args.
              offset Args i = sum_list (map sizeof (take i Args)) \<and>
              reg_slice ?reg (?B + offset Args i) (sizeof (Args ! i)) = args ! i"
    using ln la by (auto simp add: offset_sum [symmetric] intro!: reg_slice_concat)
  have z: "\<forall>j<ScriptMaxReg.
              (\<forall>i<length Args. j < ?B + offset Args i \<or> ?B + offset Args i + sizeof (Args ! i) \<le> j)
              \<longrightarrow> ?reg ! j = 0"
  proof (intro allI impI)
    fix j
    assume j: "j < ScriptMaxReg"
      and out: "\<forall>i<length Args. j < ?B + offset Args i \<or> ?B + offset Args i + sizeof (Args ! i) \<le> j"
    show "?reg ! j = 0"
    proof (cases "j < ?B")
      case True
      then show ?thesis by (simp add: nth_append)
    next
      case False
      show ?thesis
      proof (cases "j - ?B < offsetOutput Args")
        case True
        then obtain i where "i < length Args" "offset Args i \<le> j - ?B"
            "j - ?B < offset Args i + sizeof (Args ! i)"
          using offset_covers [of "j - ?B" Args "length Args"] by (auto simp add: offsetOutput_def)
        with out False show ?thesis by (auto dest!: spec [of _ i])
      next
        case b: False
        then show ?thesis using False j lc assms(2) by (simp add: nth_append)
      qed
    qed
  qed
  show ?thesis using u len sl z by blast
qed

theorem C5_updateBase_witness:
  "\<exists>reg. updateBase [TRef TInt, TInt] [TPtr (TConst (TClass 7 40)), TInt]
            [[1, 2, 3, 4, 5, 6, 7, 8], [9, 0, 0, 0]] = Some reg \<and>
         length reg = ScriptMaxReg \<and>
         reg_slice reg 8 8 = [1, 2, 3, 4, 5, 6, 7, 8] \<and>
         reg_slice reg 16 4 = [9, 0, 0, 0] \<and>
         reg ! 3 = 0 \<and> reg ! 100 = 0"
proof -
  let ?Outs = "[TRef TInt, TInt]"
  let ?Args = "[TPtr (TConst (TClass 7 40)), TInt]"
  let ?args = "[[1, 2, 3, 4, 5, 6, 7, 8], [9, 0, 0, 0]] :: 8 word list list"
  have wt: "well_typed ?Args ?args"
    by (simp add: well_typed_def sizeof_ptr_def sizeof_int_def)
  have oo: "offsetOutput ?Outs = 8" "offsetOutput ?Args = 12"
    by (simp_all add: offsetOutput_def sizeof_ptr_def sizeof_int_def)
  have fit: "offsetOutput ?Outs + offsetOutput ?Args \<le> ScriptMaxReg"
    by (simp add: oo ScriptMaxReg_def sizeof_ptr_def)
  from C5_updateBase [OF wt fit] obtain reg where
    u: "updateBase ?Outs ?Args ?args = Some reg" and len: "length reg = ScriptMaxReg" and
    sl: "\<forall>i<length ?Args.
           offset ?Args i = sum_list (map sizeof (take i ?Args)) \<and>
           reg_slice reg (offsetOutput ?Outs + offset ?Args i) (sizeof (?Args ! i)) = ?args ! i" and
    z: "\<forall>j<ScriptMaxReg.
          (\<forall>i<length ?Args. j < offsetOutput ?Outs + offset ?Args i \<or>
                offsetOutput ?Outs + offset ?Args i + sizeof (?Args ! i) \<le> j)
          \<longrightarrow> reg ! j = 0"
    by blast
  have s0: "reg_slice reg 8 8 = [1, 2, 3, 4, 5, 6, 7, 8]"
    using sl [rule_format, of 0] by (simp add: oo sizeof_ptr_def)
  have s1: "reg_slice reg 16 4 = [9, 0, 0, 0]"
    using sl [rule_format, of 1] by (simp add: oo sizeof_ptr_def sizeof_int_def)
  have z3: "reg ! 3 = 0"
    using z [rule_format, of 3] by (simp add: oo ScriptMaxReg_def sizeof_ptr_def)
  have a100: "\<forall>i<length ?Args. 100 < offsetOutput ?Outs + offset ?Args i \<or>
                offsetOutput ?Outs + offset ?Args i + sizeof (?Args ! i) \<le> 100"
    by (auto simp add: oo less_Suc_eq sizeof_ptr_def sizeof_int_def)
  have "(100 :: nat) < ScriptMaxReg" by (simp add: ScriptMaxReg_def sizeof_ptr_def)
  then have z100: "reg ! 100 = 0"
    using z a100 by blast
  show ?thesis using u len s0 s1 z3 z100 by blast
qed

section \<open>Properties of the two execute functions\<close>

lemma copy_back_nth:
  "i < length Outs \<Longrightarrow>
     copy_back Outs reg arg ! i =
       (if isOutput (Outs ! i) then reg_slice reg (offset Outs i) (sizeof (Outs ! i)) else arg ! i)"
  by (simp add: copy_back_def)

lemma length_copy_back [simp]: "length (copy_back Outs reg arg) = length Outs"
  by (simp add: copy_back_def)

lemma copy_back_piece_length:
  assumes "well_typed Outs arg" and "offsetOutput Outs \<le> length reg" and "i < length Outs"
  shows "length (copy_back Outs reg arg ! i) = sizeof (Outs ! i)"
proof -
  have "offset Outs (Suc i) \<le> offsetOutput Outs" by (rule offset_le_offsetOutput)
  then have "offset Outs i + sizeof (Outs ! i) \<le> length reg"
    using assms(2,3) by (simp add: offset_Suc)
  then show ?thesis
    using assms(1,3) by (simp add: copy_back_nth length_reg_slice well_typed_nth)
qed

lemma length_concat_copy_back:
  assumes "well_typed Outs arg" and "offsetOutput Outs \<le> length reg"
  shows "length (concat (copy_back Outs reg arg)) = offsetOutput Outs"
  using length_concat_take [of "length Outs" "copy_back Outs reg arg" Outs]
    copy_back_piece_length [OF assms]
  by (simp add: offsetOutput_def)

lemma length_restore_readonly:
  assumes "well_typed Outs arg" and "offsetOutput Outs \<le> length reg"
  shows "length (restore_readonly Outs arg reg) = length reg"
  using length_concat_copy_back [OF assms] assms(2) by (simp add: restore_readonly_def)

lemma restore_readonly_slot:
  assumes "well_typed Outs arg" and "offsetOutput Outs \<le> length reg" and "i < length Outs"
  shows "reg_slice (restore_readonly Outs arg reg) (offset Outs i) (sizeof (Outs ! i)) =
           (if isOutput (Outs ! i) then reg_slice reg (offset Outs i) (sizeof (Outs ! i))
            else arg ! i)"
proof -
  have "reg_slice ([] @ concat (copy_back Outs reg arg) @ drop (offsetOutput Outs) reg)
          (0 + offset Outs i) (sizeof (Outs ! i)) = copy_back Outs reg arg ! i"
    using copy_back_piece_length [OF assms(1,2)] assms(3)
    by (intro reg_slice_concat) simp_all
  then show ?thesis using assms(3) by (simp add: restore_readonly_def copy_back_nth)
qed

lemma restore_readonly_rest:
  assumes "well_typed Outs arg" and "offsetOutput Outs \<le> length reg"
  shows "drop (offsetOutput Outs) (restore_readonly Outs arg reg) = drop (offsetOutput Outs) reg"
  using length_concat_copy_back [OF assms] by (simp add: restore_readonly_def)

lemma set_slot:
  assumes "well_typed Outs arg" and "i < length Outs"
  shows "reg_slice (concat arg @ post) (offset Outs i) (sizeof (Outs ! i)) = arg ! i"
proof -
  have "reg_slice ([] @ concat arg @ post) (0 + offset Outs i) (sizeof (Outs ! i)) = arg ! i"
    using well_typed_length [OF assms(1)] well_typed_nth [OF assms(1)] assms(2)
    by (intro reg_slice_concat) simp_all
  then show ?thesis by simp
qed

lemma execute_closed:
  assumes "well_typed Outs arg" and "offsetOutput Outs \<le> length reg"
    and "\<forall>p r r'. ex p r = Some r' \<longrightarrow> length r' = length r"
  shows "execute ex Outs c arg reg =
           (case ex (ScriptContainerBase_data c) (concat arg @ drop (offsetOutput Outs) reg) of
              None \<Rightarrow> None
            | Some reg2 \<Rightarrow> Some (reg2, copy_back Outs reg2 arg))"
proof -
  let ?r1 = "concat arg @ drop (offsetOutput Outs) reg"
  have l1: "length ?r1 = length reg"
    using length_concat_take [of "length Outs" arg Outs] well_typed_length [OF assms(1)]
      well_typed_nth [OF assms(1)] assms(2)
    by (simp add: offsetOutput_def)
  show ?thesis
  proof (cases "ex (ScriptContainerBase_data c) ?r1")
    case None
    then show ?thesis using worker_set_closed [OF assms(1,2)] by (simp add: execute_def)
  next
    case (Some reg2)
    then have "length reg2 = length reg" using assms(3) l1 by metis
    then have "worker_get Outs reg2 arg = Some (copy_back Outs reg2 arg)"
      using assms(2) well_typed_length [OF assms(1)] by (intro worker_get_closed) simp_all
    then show ?thesis using Some worker_set_closed [OF assms(1,2)] by (simp add: execute_def)
  qed
qed

lemma run_chain_append:
  "run_chain ex Outs arg (xs @ ys) reg =
     (case run_chain ex Outs arg xs reg of None \<Rightarrow> None | Some r \<Rightarrow> run_chain ex Outs arg ys r)"
  by (induction xs arbitrary: reg) (simp_all split: option.splits)

lemma reset_and_run_length:
  assumes "well_typed Outs arg" and "offsetOutput Outs \<le> length reg"
    and "\<forall>p r r'. ex p r = Some r' \<longrightarrow> length r' = length r"
    and "reset_and_run ex Outs arg code reg = Some r"
  shows "length r = length reg"
  using assms(3,4) length_restore_readonly [OF assms(1,2)]
  unfolding reset_and_run_def by metis

lemma run_chain_length:
  assumes "well_typed Outs arg"
    and "\<forall>p r r'. ex p r = Some r' \<longrightarrow> length r' = length r"
  shows "offsetOutput Outs \<le> length reg \<Longrightarrow> run_chain ex Outs arg codes reg = Some r
           \<Longrightarrow> length r = length reg"
proof (induction codes arbitrary: reg)
  case Nil
  then show ?case by simp
next
  case (Cons code codes)
  from Cons.prems(2) obtain r1 where
    r1: "reset_and_run ex Outs arg code reg = Some r1" and
    rest: "run_chain ex Outs arg codes r1 = Some r"
    by (auto split: option.splits)
  have l1: "length r1 = length reg"
    using assms(1) Cons.prems(1) assms(2) r1 by (rule reset_and_run_length)
  then have "length r = length r1" using Cons.IH [of r1] Cons.prems(1) rest by simp
  with l1 show ?case by simp
qed

lemma run_events_chain:
  assumes "well_typed Outs arg"
    and "\<forall>p r r'. ex p r = Some r' \<longrightarrow> length r' = length r"
    and "\<not> ScriptContainerBase_bool s"
  shows "offsetOutput Outs \<le> length reg \<Longrightarrow> \<forall>e\<in>set es. ScriptContainerBase_bool e \<Longrightarrow>
         run_events ex Outs arg (es @ s # rest) reg =
           (case run_chain ex Outs arg (map ScriptContainerBase_data es) reg of
              None \<Rightarrow> None
            | Some r \<Rightarrow> Some (s # rest, r))"
proof (induction es arbitrary: reg)
  case Nil
  then show ?case using assms(3) by simp
next
  case (Cons e es)
  have b: "ScriptContainerBase_bool e" using Cons.prems(2) by simp
  have rs: "worker_reset Outs arg reg = Some (restore_readonly Outs arg reg)"
    using assms(1) Cons.prems(1) by (rule worker_reset_closed)
  show ?case
  proof (cases "ex (ScriptContainerBase_data e) (restore_readonly Outs arg reg)")
    case None
    then show ?thesis using b rs by (simp add: reset_and_run_def)
  next
    case (Some r1)
    then have "length r1 = length reg"
      using assms(2) length_restore_readonly [OF assms(1) Cons.prems(1)] by metis
    then have "run_events ex Outs arg (es @ s # rest) r1 =
           (case run_chain ex Outs arg (map ScriptContainerBase_data es) r1 of
              None \<Rightarrow> None
            | Some r \<Rightarrow> Some (s # rest, r))"
      using Cons.IH [of r1] Cons.prems by simp
    then show ?thesis using b rs Some by (simp add: reset_and_run_def)
  qed
qed


lemma events_tail:
  assumes wt: "well_typed Outs arg" and fit: "offsetOutput Outs \<le> length reg1"
    and lp: "\<forall>p r r'. ex p r = Some r' \<longrightarrow> length r' = length r"
    and pt: "(ptr1 = None \<and> after = []) \<or>
             (\<exists>s2 rest. ptr1 = Some (after @ s2 # rest) \<and> \<not> ScriptContainerBase_bool s2)"
    and ta: "\<forall>e\<in>set after. ScriptContainerBase_bool e"
  shows "(case worker_reset Outs arg reg1 of
            None \<Rightarrow> None
          | Some reg2 \<Rightarrow>
             (case ex main reg2 of
                None \<Rightarrow> None
              | Some reg3 \<Rightarrow>
                 (case (case ptr1 of
                          None \<Rightarrow> Some reg3
                        | Some ptr \<Rightarrow>
                           (case run_events ex Outs arg ptr reg3 of
                              None \<Rightarrow> None
                            | Some (ptr', reg') \<Rightarrow> Some reg')) of
                    None \<Rightarrow> None
                  | Some reg4 \<Rightarrow>
                     (case worker_get Outs reg4 arg of
                        None \<Rightarrow> None
                      | Some arg' \<Rightarrow> Some (reg4, arg')))))
         = (case run_chain ex Outs arg (main # map ScriptContainerBase_data after) reg1 of
              None \<Rightarrow> None
            | Some r \<Rightarrow> Some (r, copy_back Outs r arg))"
proof -
  have rs: "worker_reset Outs arg reg1 = Some (restore_readonly Outs arg reg1)"
    using wt fit by (rule worker_reset_closed)
  have la: "length arg = length Outs" using wt by (rule well_typed_length)
  show ?thesis
  proof (cases "ex main (restore_readonly Outs arg reg1)")
    case None
    then show ?thesis using rs by (simp add: reset_and_run_def)
  next
    case (Some reg3)
    have l3: "length reg3 = length reg1"
      using Some lp length_restore_readonly [OF wt fit] by metis
    then have fit3: "offsetOutput Outs \<le> length reg3" using fit by simp
    have inner: "(case ptr1 of
                    None \<Rightarrow> Some reg3
                  | Some ptr \<Rightarrow>
                     (case run_events ex Outs arg ptr reg3 of
                        None \<Rightarrow> None
                      | Some (ptr', reg') \<Rightarrow> Some reg'))
                 = run_chain ex Outs arg (map ScriptContainerBase_data after) reg3"
    proof (cases ptr1)
      case None
      with pt show ?thesis by simp
    next
      case (Some ptr)
      with pt obtain s2 rest where
        p: "ptr = after @ s2 # rest" and f: "\<not> ScriptContainerBase_bool s2"
        by auto
      show ?thesis
        unfolding Some p
        using run_events_chain [OF wt lp f fit3 ta, of rest]
        by (simp split: option.splits)
    qed
    show ?thesis
    proof (cases "run_chain ex Outs arg (map ScriptContainerBase_data after) reg3")
      case None
      then show ?thesis using rs Some inner by (simp add: reset_and_run_def)
    next
      case r4: (Some reg4)
      have "length reg4 = length reg3"
        using wt lp fit3 r4 by (rule run_chain_length)
      then have "worker_get Outs reg4 arg = Some (copy_back Outs reg4 arg)"
        using fit3 la by (intro worker_get_closed) simp_all
      then show ?thesis using rs Some inner r4 by (simp add: reset_and_run_def)
    qed
  qed
qed

lemma execute_events_closed:
  assumes wt: "well_typed Outs arg" and fit: "offsetOutput Outs \<le> length reg"
    and lp: "\<forall>p r r'. ex p r = Some r' \<longrightarrow> length r' = length r"
    and ev: "(dataEvents c = None \<and> before = [] \<and> after = []) \<or>
             (\<exists>s1 s2 rest. dataEvents c = Some (before @ s1 # after @ s2 # rest) \<and>
                \<not> ScriptContainerBase_bool s1 \<and> \<not> ScriptContainerBase_bool s2)"
    and tb: "\<forall>e\<in>set before. ScriptContainerBase_bool e"
    and ta: "\<forall>e\<in>set after. ScriptContainerBase_bool e"
  shows "execute_events ex Outs c arg reg =
           events_spec ex Outs (map ScriptContainerBase_data before)
             (ScriptContainerEventsBase_data c) (map ScriptContainerBase_data after) arg reg"
proof -
  let ?r0 = "concat arg @ drop (offsetOutput Outs) reg"
  let ?main = "ScriptContainerEventsBase_data c"
  have st: "worker_set Outs arg reg = Some ?r0" using wt fit by (rule worker_set_closed)
  have l0: "length ?r0 = length reg"
    using length_concat_take [of "length Outs" arg Outs] well_typed_length [OF wt]
      well_typed_nth [OF wt] fit
    by (simp add: offsetOutput_def)
  then have fit0: "offsetOutput Outs \<le> length ?r0" using fit by simp
  from ev show ?thesis
  proof
    assume n: "dataEvents c = None \<and> before = [] \<and> after = []"
    then have pt: "((None :: ScriptContainerBase list option) = None \<and> after = []) \<or>
        (\<exists>s2 rest. (None :: ScriptContainerBase list option) = Some (after @ s2 # rest) \<and>
           \<not> ScriptContainerBase_bool s2)"
      by simp
    show ?thesis
      using events_tail [OF wt fit0 lp pt ta, of ?main] n st
      by (simp add: execute_events_def events_spec_def)
  next
    assume "\<exists>s1 s2 rest. dataEvents c = Some (before @ s1 # after @ s2 # rest) \<and>
                \<not> ScriptContainerBase_bool s1 \<and> \<not> ScriptContainerBase_bool s2"
    then obtain s1 s2 rest where
      d: "dataEvents c = Some (before @ s1 # after @ s2 # rest)" and
      f1: "\<not> ScriptContainerBase_bool s1" and f2: "\<not> ScriptContainerBase_bool s2"
      by blast
    have re: "run_events ex Outs arg (before @ s1 # after @ s2 # rest) ?r0 =
           (case run_chain ex Outs arg (map ScriptContainerBase_data before) ?r0 of
              None \<Rightarrow> None
            | Some r \<Rightarrow> Some (s1 # after @ s2 # rest, r))"
      using wt lp f1 fit0 tb by (rule run_events_chain)
    show ?thesis
    proof (cases "run_chain ex Outs arg (map ScriptContainerBase_data before) ?r0")
      case None
      then show ?thesis using st d re
        by (simp add: execute_events_def events_spec_def run_chain_append)
    next
      case (Some reg1)
      have "length reg1 = length ?r0" using wt lp fit0 Some by (rule run_chain_length)
      then have fit1: "offsetOutput Outs \<le> length reg1" using fit0 by simp
      have pt: "(Some (after @ s2 # rest) = None \<and> after = []) \<or>
        (\<exists>s2' rest'. Some (after @ s2 # rest) = Some (after @ s2' # rest') \<and>
           \<not> ScriptContainerBase_bool s2')"
        using f2 by blast
      show ?thesis
        using events_tail [OF wt fit1 lp pt ta, of ?main] st d re Some
        by (simp add: execute_events_def events_spec_def run_chain_append)
    qed
  qed
qed

text \<open>
  Claim C6, as stated, has \<^verbatim>\<open>get\<close> copy the values of the output region back to the
  caller. \<^verbatim>\<open>get\<close> filters with \<^verbatim>\<open>GetWritableRegs\<close>: only the elements whose type
  is \<^verbatim>\<open>isOutput\<close> are copied. For the output type \<^verbatim>\<open>ScriptOutputArgs<int&, int>\<close>
  and a script (the one-byte code 7) that stores 7 in the second register, the caller's
  second value is still 2 after the call while the output region holds 7.
\<close>

theorem C6_copy_back_counterexample:
  "execute store_second [TRef TInt, TInt] \<lparr>proc = [7]\<rparr>
       [[1, 0, 0, 0], [2, 0, 0, 0]] (replicate ScriptMaxReg 0) \<noteq> None \<and>
   snd (the (execute store_second [TRef TInt, TInt] \<lparr>proc = [7]\<rparr>
       [[1, 0, 0, 0], [2, 0, 0, 0]] (replicate ScriptMaxReg 0))) = [[1, 0, 0, 0], [2, 0, 0, 0]] \<and>
   output_region_values [TRef TInt, TInt]
     (fst (the (execute store_second [TRef TInt, TInt] \<lparr>proc = [7]\<rparr>
       [[1, 0, 0, 0], [2, 0, 0, 0]] (replicate ScriptMaxReg 0)))) = [[1, 0, 0, 0], [7, 0, 0, 0]]"
proof -
  let ?Outs = "[TRef TInt, TInt]"
  let ?arg = "[[1, 0, 0, 0], [2, 0, 0, 0]] :: 8 word list list"
  let ?reg = "replicate ScriptMaxReg (0 :: 8 word)"
  have wt: "well_typed ?Outs ?arg" by (simp add: well_typed_def sizeof_int_def)
  have oo: "offsetOutput ?Outs = 8" by (simp add: offsetOutput_def sizeof_int_def)
  have fit: "offsetOutput ?Outs \<le> length ?reg" by (simp add: oo ScriptMaxReg_def sizeof_ptr_def)
  have lp: "\<forall>p r r'. store_second p r = Some r' \<longrightarrow> length r' = length r"
    by (auto simp add: store_second_def split: option.splits)
  let ?reg2 = "([1, 0, 0, 0, 2, 0, 0, 0] @ drop 8 ?reg)[4 := 7]"
  have e0: "execute store_second ?Outs \<lparr>proc = [7]\<rparr> ?arg ?reg =
             (case store_second (ScriptContainerBase_data \<lparr>proc = [7]\<rparr>)
                     (concat ?arg @ drop (offsetOutput ?Outs) ?reg) of
                None \<Rightarrow> None
              | Some reg2 \<Rightarrow> Some (reg2, copy_back ?Outs reg2 ?arg))"
    using wt fit lp by (rule execute_closed)
  have e1: "(case store_second (ScriptContainerBase_data \<lparr>proc = [7]\<rparr>)
                     (concat ?arg @ drop (offsetOutput ?Outs) ?reg) of
                None \<Rightarrow> None
              | Some reg2 \<Rightarrow> Some (reg2, copy_back ?Outs reg2 ?arg)) =
             Some (?reg2, copy_back ?Outs ?reg2 ?arg)"
    by (simp add: oo store_second_def ScriptContainerBase_data_def ScriptContainerBase_bool_def)
  have e: "execute store_second ?Outs \<lparr>proc = [7]\<rparr> ?arg ?reg =
             Some (?reg2, copy_back ?Outs ?reg2 ?arg)"
    using e0 e1 by (rule trans)
  have c: "copy_back ?Outs ?reg2 ?arg = [[1, 0, 0, 0], [2, 0, 0, 0]]"
    by (simp add: copy_back_def isOutput_def isRef_def reg_slice_def sizeof_int_def
        list_update_append upt_conv_Cons)
  have o: "output_region_values ?Outs ?reg2 = [[1, 0, 0, 0], [7, 0, 0, 0]]"
    by (simp add: output_region_values_def reg_slice_def sizeof_int_def
        list_update_append upt_conv_Cons)
  show ?thesis unfolding e using c o by simp
qed

text \<open>
  Claim C6, amended: for a caller's output tuple of the declared types and a register
  file that holds the output region, \<^verbatim>\<open>execute\<close> is the sequence of three steps.
  \<^verbatim>\<open>set\<close> copies every value of the caller's tuple into its register of the output
  region and leaves the rest of the register file as it is; \<^verbatim>\<open>executeBase\<close> runs on
  that register file the container's bytecode, that is, the bytecode vector when it is
  not empty and the null pointer when it is; \<^verbatim>\<open>get\<close> copies back the registers of the
  elements of reference type only, whether the referenced type is \<^verbatim>\<open>const\<close> or not
  (\<^verbatim>\<open>isOutput\<close> holds of every reference type), and the elements that are not of
  reference type keep the caller's values. The result is \<open>None\<close> only when
  \<^verbatim>\<open>executeBase\<close> does not return.
\<close>

theorem C6_execute_amended:
  assumes "well_typed OutputArgs arg" and "offsetOutput OutputArgs \<le> length reg"
    and "\<forall>p r r'. executeBase p r = Some r' \<longrightarrow> length r' = length r"
  shows "worker_set OutputArgs arg reg = Some (concat arg @ drop (offsetOutput OutputArgs) reg) \<and>
         (\<forall>i<length OutputArgs.
            reg_slice (concat arg @ drop (offsetOutput OutputArgs) reg)
              (offset OutputArgs i) (sizeof (OutputArgs ! i)) = arg ! i) \<and>
         execute executeBase OutputArgs c arg reg =
           (case executeBase (if proc c = [] then None else Some (proc c))
                   (concat arg @ drop (offsetOutput OutputArgs) reg) of
              None \<Rightarrow> None
            | Some reg2 \<Rightarrow>
               Some (reg2,
                 map (\<lambda>i. if is_reference (OutputArgs ! i)
                           then reg_slice reg2 (offset OutputArgs i) (sizeof (OutputArgs ! i))
                           else arg ! i)
                   [0 ..< length OutputArgs])) \<and>
         (\<forall>reg2. length reg2 = length reg \<longrightarrow>
            (\<exists>arg'. worker_get OutputArgs reg2 arg = Some arg' \<and> length arg' = length arg \<and>
               (\<forall>i<length OutputArgs.
                  arg' ! i =
                    (if is_reference (OutputArgs ! i)
                     then reg_slice reg2 (offset OutputArgs i) (sizeof (OutputArgs ! i))
                     else arg ! i))))"
proof (intro conjI allI impI)
  have cb: "copy_back OutputArgs r arg =
              map (\<lambda>i. if is_reference (OutputArgs ! i)
                        then reg_slice r (offset OutputArgs i) (sizeof (OutputArgs ! i))
                        else arg ! i)
                [0 ..< length OutputArgs]" for r
    by (simp add: copy_back_def isOutput_eq_isRef isRef_def)
  have d: "ScriptContainerBase_data c = (if proc c = [] then None else Some (proc c))"
    by (simp add: ScriptContainerBase_data_def ScriptContainerBase_bool_def)
  show "worker_set OutputArgs arg reg = Some (concat arg @ drop (offsetOutput OutputArgs) reg)"
    using assms(1,2) by (rule worker_set_closed)
  show "execute executeBase OutputArgs c arg reg =
           (case executeBase (if proc c = [] then None else Some (proc c))
                   (concat arg @ drop (offsetOutput OutputArgs) reg) of
              None \<Rightarrow> None
            | Some reg2 \<Rightarrow>
               Some (reg2,
                 map (\<lambda>i. if is_reference (OutputArgs ! i)
                           then reg_slice reg2 (offset OutputArgs i) (sizeof (OutputArgs ! i))
                           else arg ! i)
                   [0 ..< length OutputArgs]))"
    using execute_closed [OF assms, of c] unfolding d cb .
  {
    fix i assume "i < length OutputArgs"
    with assms(1) show "reg_slice (concat arg @ drop (offsetOutput OutputArgs) reg)
                (offset OutputArgs i) (sizeof (OutputArgs ! i)) = arg ! i"
      by (rule set_slot)
  }
  fix reg2 :: regfile assume "length reg2 = length reg"
  then have g: "worker_get OutputArgs reg2 arg = Some (copy_back OutputArgs reg2 arg)"
    using assms(2) well_typed_length [OF assms(1)] by (intro worker_get_closed) simp_all
  have n: "\<forall>i<length OutputArgs.
             copy_back OutputArgs reg2 arg ! i =
               (if is_reference (OutputArgs ! i)
                then reg_slice reg2 (offset OutputArgs i) (sizeof (OutputArgs ! i))
                else arg ! i)"
    by (simp add: copy_back_nth isOutput_eq_isRef isRef_def)
  have l: "length (copy_back OutputArgs reg2 arg) = length arg"
    using well_typed_length [OF assms(1)] by simp
  show "\<exists>arg'. worker_get OutputArgs reg2 arg = Some arg' \<and> length arg' = length arg \<and>
               (\<forall>i<length OutputArgs.
                  arg' ! i =
                    (if is_reference (OutputArgs ! i)
                     then reg_slice reg2 (offset OutputArgs i) (sizeof (OutputArgs ! i))
                     else arg ! i))"
    using g n l by blast
qed

text \<open>
  The amended claim at work for the output type \<^verbatim>\<open>ScriptOutputArgs<const int&, int>\<close>
  and the one-byte code 5, run by an \<^verbatim>\<open>executeBase\<close> that stores the first byte of the
  code in the first register and 7 in the second: the element of reference type comes
  back as 5 although it refers to a \<^verbatim>\<open>const\<close> type, the second element stays 2, and
  with the empty container, whose code is the null pointer, nothing is stored.
\<close>

theorem C6_execute_amended_witness:
  "(\<exists>reg2.
     execute (\<lambda>p r. Some (case p of None \<Rightarrow> r | Some code \<Rightarrow> r[0 := hd code, 4 := 7]))
       [TRef (TConst TInt), TInt] \<lparr>proc = [5]\<rparr>
       [[1, 0, 0, 0], [2, 0, 0, 0]] (replicate ScriptMaxReg 0)
     = Some (reg2, [[5, 0, 0, 0], [2, 0, 0, 0]]) \<and>
     reg_slice reg2 4 4 = [7, 0, 0, 0]) \<and>
   (\<exists>reg2.
     execute (\<lambda>p r. Some (case p of None \<Rightarrow> r | Some code \<Rightarrow> r[0 := hd code, 4 := 7]))
       [TRef (TConst TInt), TInt] \<lparr>proc = []\<rparr>
       [[1, 0, 0, 0], [2, 0, 0, 0]] (replicate ScriptMaxReg 0)
     = Some (reg2, [[1, 0, 0, 0], [2, 0, 0, 0]]) \<and>
     reg_slice reg2 4 4 = [2, 0, 0, 0])"
proof -
  let ?Outs = "[TRef (TConst TInt), TInt]"
  let ?arg = "[[1, 0, 0, 0], [2, 0, 0, 0]] :: 8 word list list"
  let ?reg = "replicate ScriptMaxReg (0 :: 8 word)"
  let ?ex = "\<lambda>(p :: 8 word list option) (r :: regfile).
               Some (case p of None \<Rightarrow> r | Some code \<Rightarrow> r[0 := hd code, 4 := 7])"
  have wt: "well_typed ?Outs ?arg" by (simp add: well_typed_def sizeof_int_def)
  have oo: "offsetOutput ?Outs = 8" by (simp add: offsetOutput_def sizeof_int_def)
  have fit: "offsetOutput ?Outs \<le> length ?reg" by (simp add: oo ScriptMaxReg_def sizeof_ptr_def)
  have lp: "\<forall>p r r'. ?ex p r = Some r' \<longrightarrow> length r' = length r"
    by (auto split: option.splits)
  have a: "\<exists>reg2. execute ?ex ?Outs \<lparr>proc = [5]\<rparr> ?arg ?reg
             = Some (reg2, [[5, 0, 0, 0], [2, 0, 0, 0]]) \<and> reg_slice reg2 4 4 = [7, 0, 0, 0]"
    using C6_execute_amended [OF wt fit lp, of "\<lparr>proc = [5]\<rparr>"]
    by (simp add: oo reg_slice_def sizeof_int_def list_update_append upt_conv_Cons)
  have b: "\<exists>reg2. execute ?ex ?Outs \<lparr>proc = []\<rparr> ?arg ?reg
             = Some (reg2, [[1, 0, 0, 0], [2, 0, 0, 0]]) \<and> reg_slice reg2 4 4 = [2, 0, 0, 0]"
    using C6_execute_amended [OF wt fit lp, of "\<lparr>proc = []\<rparr>"]
    by (simp add: oo reg_slice_def sizeof_int_def list_update_append upt_conv_Cons)
  show ?thesis using a b by blast
qed

text \<open>
  Claim C4: for an events container whose array of events holds the before-events, a
  container that converts to false, the after-events and a second container that
  converts to false (or whose pointer to the events is null, with no events at all),
  \<^verbatim>\<open>execute\<close> is the chain of the specification: the register file is loaded with the
  caller's output values; every before-event runs, then the main script, then every
  after-event, each run preceded by a reset; the outputs are copied back to the caller
  once, from the register file the last run leaves. The reset gives every register of a
  read-only element the caller's value again and changes no other byte, so every run
  starts from the caller's read-only values whatever the runs before it did; and in the
  caller's tuple the read-only elements are unchanged at the end.
\<close>

theorem C4_execute_events:
  assumes wt: "well_typed OutputArgs arg" and fit: "offsetOutput OutputArgs \<le> length reg"
    and lp: "\<forall>p r r'. executeBase p r = Some r' \<longrightarrow> length r' = length r"
    and ev: "(dataEvents c = None \<and> before = [] \<and> after = []) \<or>
             (\<exists>s1 s2 rest. dataEvents c = Some (before @ s1 # after @ s2 # rest) \<and>
                \<not> ScriptContainerBase_bool s1 \<and> \<not> ScriptContainerBase_bool s2)"
    and tb: "\<forall>e\<in>set before. ScriptContainerBase_bool e"
    and ta: "\<forall>e\<in>set after. ScriptContainerBase_bool e"
  shows "execute_events executeBase OutputArgs c arg reg =
           events_spec executeBase OutputArgs (map ScriptContainerBase_data before)
             (ScriptContainerEventsBase_data c) (map ScriptContainerBase_data after) arg reg \<and>
         (\<forall>r. length r = length reg \<longrightarrow>
            worker_reset OutputArgs arg r = Some (restore_readonly OutputArgs arg r) \<and>
            drop (offsetOutput OutputArgs) (restore_readonly OutputArgs arg r) =
              drop (offsetOutput OutputArgs) r \<and>
            (\<forall>i<length OutputArgs.
               reg_slice (restore_readonly OutputArgs arg r)
                  (offset OutputArgs i) (sizeof (OutputArgs ! i)) =
                 (if isOutput (OutputArgs ! i)
                  then reg_slice r (offset OutputArgs i) (sizeof (OutputArgs ! i))
                  else arg ! i))) \<and>
         (\<forall>r arg'. execute_events executeBase OutputArgs c arg reg = Some (r, arg') \<longrightarrow>
            length arg' = length arg \<and>
            (\<forall>i<length OutputArgs.
               arg' ! i =
                 (if isOutput (OutputArgs ! i)
                  then reg_slice r (offset OutputArgs i) (sizeof (OutputArgs ! i))
                  else arg ! i)))"
proof (intro conjI allI impI)
  show e: "execute_events executeBase OutputArgs c arg reg =
           events_spec executeBase OutputArgs (map ScriptContainerBase_data before)
             (ScriptContainerEventsBase_data c) (map ScriptContainerBase_data after) arg reg"
    using assms by (rule execute_events_closed)
  {
    fix r arg'
    assume "execute_events executeBase OutputArgs c arg reg = Some (r, arg')"
    then have a: "arg' = copy_back OutputArgs r arg"
      unfolding e events_spec_def by (auto split: option.splits)
    show "length arg' = length arg"
      using a well_typed_length [OF wt] by simp
    fix i
    assume "i < length OutputArgs"
    then show "arg' ! i =
                 (if isOutput (OutputArgs ! i)
                  then reg_slice r (offset OutputArgs i) (sizeof (OutputArgs ! i))
                  else arg ! i)"
      unfolding a by (rule copy_back_nth)
  }
next
  fix r :: regfile
  assume l: "length r = length reg"
  then have f: "offsetOutput OutputArgs \<le> length r" using fit by simp
  show "worker_reset OutputArgs arg r = Some (restore_readonly OutputArgs arg r)"
    using wt f by (rule worker_reset_closed)
  show "drop (offsetOutput OutputArgs) (restore_readonly OutputArgs arg r) =
          drop (offsetOutput OutputArgs) r"
    using wt f by (rule restore_readonly_rest)
  fix i
  assume "i < length OutputArgs"
  with wt f show "reg_slice (restore_readonly OutputArgs arg r)
                  (offset OutputArgs i) (sizeof (OutputArgs ! i)) =
                 (if isOutput (OutputArgs ! i)
                  then reg_slice r (offset OutputArgs i) (sizeof (OutputArgs ! i))
                  else arg ! i)"
    by (rule restore_readonly_slot)
qed

theorem C4_execute_events_witness:
  "\<exists>r. execute_events
          (\<lambda>p r. Some (case p of None \<Rightarrow> r | Some code \<Rightarrow> r[0 := r ! 0 * 10 + hd code, 4 := 9]))
          [TRef TInt, TInt]
          \<lparr>current = \<lparr>proc = [5]\<rparr>,
           events = Some [\<lparr>proc = [1]\<rparr>, \<lparr>proc = []\<rparr>, \<lparr>proc = [2]\<rparr>, \<lparr>proc = []\<rparr>]\<rparr>
          [[0, 0, 0, 0], [2, 0, 0, 0]] (replicate ScriptMaxReg 0)
        = Some (r, [[152, 0, 0, 0], [2, 0, 0, 0]])"
proof -
  let ?Outs = "[TRef TInt, TInt]"
  let ?arg = "[[0, 0, 0, 0], [2, 0, 0, 0]] :: 8 word list list"
  let ?reg = "replicate ScriptMaxReg (0 :: 8 word)"
  let ?ex = "\<lambda>(p :: 8 word list option) (r :: regfile).
               Some (case p of None \<Rightarrow> r | Some code \<Rightarrow> r[0 := r ! 0 * 10 + hd code, 4 := 9])"
  let ?c = "\<lparr>current = \<lparr>proc = [5]\<rparr>,
             events = Some [\<lparr>proc = [1]\<rparr>, \<lparr>proc = []\<rparr>, \<lparr>proc = [2]\<rparr>, \<lparr>proc = []\<rparr>]\<rparr>"
  have wt: "well_typed ?Outs ?arg" by (simp add: well_typed_def sizeof_int_def)
  have oo: "offsetOutput ?Outs = 8" by (simp add: offsetOutput_def sizeof_int_def)
  have fit: "offsetOutput ?Outs \<le> length ?reg" by (simp add: oo ScriptMaxReg_def sizeof_ptr_def)
  have lp: "\<forall>p r r'. ?ex p r = Some r' \<longrightarrow> length r' = length r"
    by (auto split: option.splits)
  have ev: "(dataEvents ?c = None \<and> [\<lparr>proc = [1]\<rparr>] = [] \<and> [\<lparr>proc = [2]\<rparr>] = []) \<or>
            (\<exists>s1 s2 rest. dataEvents ?c = Some ([\<lparr>proc = [1]\<rparr>] @ s1 # [\<lparr>proc = [2]\<rparr>] @ s2 # rest) \<and>
               \<not> ScriptContainerBase_bool s1 \<and> \<not> ScriptContainerBase_bool s2)"
    by (rule disjI2, rule exI [of _ "\<lparr>proc = []\<rparr>"], rule exI [of _ "\<lparr>proc = []\<rparr>"],
        rule exI [of _ "[]"]) (simp add: dataEvents_def ScriptContainerBase_bool_def)
  have tb: "\<forall>e\<in>set [\<lparr>proc = [1 :: 8 word]\<rparr>]. ScriptContainerBase_bool e"
    and ta: "\<forall>e\<in>set [\<lparr>proc = [2 :: 8 word]\<rparr>]. ScriptContainerBase_bool e"
    by (simp_all add: ScriptContainerBase_bool_def)
  have d8: "drop 8 ?reg = replicate (ScriptMaxReg - 8) 0" by simp
  have e: "execute_events ?ex ?Outs ?c ?arg ?reg =
           events_spec ?ex ?Outs (map ScriptContainerBase_data [\<lparr>proc = [1]\<rparr>])
             (ScriptContainerEventsBase_data ?c) (map ScriptContainerBase_data [\<lparr>proc = [2]\<rparr>])
             ?arg ?reg"
    using C4_execute_events [OF wt fit lp ev tb ta] by blast
  show ?thesis
    unfolding e
    by (simp add: events_spec_def reset_and_run_def restore_readonly_def copy_back_def oo d8
        isOutput_def isRef_def reg_slice_def sizeof_int_def list_update_append upt_conv_Cons
        ScriptContainerBase_data_def ScriptContainerEventsBase_data_def ScriptContainerBase_bool_def)
qed

end
